theory Spec2Isabelle
  imports Complex_Main "HOL-Library.Word"
begin

unbundle bit_operations_syntax

section \<open>The TTS cache-and-cost engine of backend/services/ttsService.js\<close>

text \<open>
  A shallow embedding of \<^verbatim>\<open>src/backend/services/ttsService.js\<close> and of the error mapping of
  \<^verbatim>\<open>src/backend/routes/tts.js\<close>.

  Conventions of the embedding:
  \<^item> a JavaScript number is an exact \<^typ>\<open>real\<close> (a character count is a \<^typ>\<open>nat\<close>); the
    rounding of IEEE doubles is not modelled, \<^verbatim>\<open>Math.round\<close>, \<^verbatim>\<open>Math.ceil\<close> and
    \<^verbatim>\<open>Math.floor\<close> are;
  \<^item> user text is a list of UTF-16 code units, so that \<^verbatim>\<open>text.length\<close> is \<^const>\<open>length\<close> and
    \<^verbatim>\<open>Buffer.byteLength(text, 'utf8')\<close> is computed from the code units; voice names, file
    names, digests and dates are \<^typ>\<open>string\<close>s;
  \<^item> a \<^verbatim>\<open>Buffer\<close> is a list of bytes;
  \<^item> a thrown \<^verbatim>\<open>Error\<close> is its message, the left summand of a result;
  \<^item> the file system, the usage map and the console are fields of an explicit world that
    every operation returns updated;
  \<^item> the library and the provider (\<^verbatim>\<open>JSON.stringify\<close>, SHA-256, \<^verbatim>\<open>Math.sin\<close>,
    \<^verbatim>\<open>Math.random\<close>, \<^verbatim>\<open>Date.now\<close>, the Google client) are parameters.
\<close>

subsection \<open>Numbers\<close>

definition Math_round :: "real \<Rightarrow> int" where
  "Math_round x = \<lfloor>x + 1 / 2\<rfloor>"

definition Math_ceil :: "real \<Rightarrow> int" where
  "Math_ceil x = \<lceil>x\<rceil>"

definition Math_floor :: "real \<Rightarrow> int" where
  "Math_floor x = \<lfloor>x\<rfloor>"

subsection \<open>Strings\<close>

type_synonym jsstring = "16 word list"

type_synonym bytes = "8 word list"

text \<open>\<^verbatim>\<open>s.includes(t)\<close>: \<open>t\<close> occurs in \<open>s\<close> as a contiguous run.\<close>

fun str_includes :: "'a list \<Rightarrow> 'a list \<Rightarrow> bool" where
  "str_includes [] t = (t = [])"
| "str_includes (c # cs) t = (take (length t) (c # cs) = t \<or> str_includes cs t)"

text \<open>An 8-bit string read as a JavaScript string.\<close>

definition js :: "string \<Rightarrow> jsstring" where
  "js s = map (\<lambda>c. of_nat (of_char c)) s"

text \<open>The decimal digits of a number, as a template literal prints a non-negative integer.\<close>

fun decimal :: "nat \<Rightarrow> string" where
  "decimal n = (if n < 10 then [char_of (48 + n)] else decimal (n div 10) @ [char_of (48 + n mod 10)])"

declare decimal.simps [simp del]

subsection \<open>Configuration and the cost model\<close>

record tts_config =
  standardCostPerCharacterUSD :: real
  neural2CostPerCharacterUSD :: real
  freeQuotaPerMonth :: nat
  maxCacheSizeMB :: nat
  cacheExpiryHours :: int

definition TTS_CONFIG :: tts_config where
  "TTS_CONFIG = \<lparr> standardCostPerCharacterUSD = 4 / 1000000,
                  neural2CostPerCharacterUSD = 16 / 1000000,
                  freeQuotaPerMonth = 1000000,
                  maxCacheSizeMB = 1000,
                  cacheExpiryHours = 168 \<rparr>"

definition isNeural2Voice :: "string \<Rightarrow> bool" where
  "isNeural2Voice voiceName \<longleftrightarrow>
     str_includes voiceName ''Neural2'' \<or> voiceName = ''neural-female'' \<or> voiceName = ''neural-male''"

definition calculateCostUSD :: "nat \<Rightarrow> string \<Rightarrow> real" where
  "calculateCostUSD characterCount voiceName =
     (let isNeural = isNeural2Voice voiceName;
          costPerCharacter = (if isNeural then neural2CostPerCharacterUSD TTS_CONFIG
                              else standardCostPerCharacterUSD TTS_CONFIG);
          costUSD = real characterCount * costPerCharacter
      in real_of_int (Math_round (costUSD * 100)) / 100)"

subsection \<open>Voice resolver\<close>

definition VOICE_MAP :: "(string \<times> string) list" where
  "VOICE_MAP =
     [(''female'', ''en-US-Standard-C''),
      (''male'', ''en-US-Standard-B''),
      (''neural-female'', ''en-US-Neural2-F''),
      (''neural-male'', ''en-US-Neural2-D''),
      (''en-US-Standard-C'', ''en-US-Standard-C''),
      (''en-US-Standard-B'', ''en-US-Standard-B''),
      (''en-US-Neural2-F'', ''en-US-Neural2-F''),
      (''en-US-Neural2-D'', ''en-US-Neural2-D'')]"

text \<open>
  \<^verbatim>\<open>VOICE_MAP[requestedVoice] || VOICE_MAP['female']\<close>, the first statement of
  \<^verbatim>\<open>generateTTS\<close> and of the segment loop. Every value of the table is a non-empty string,
  so the right operand is taken exactly when the key is absent.
\<close>

definition resolveVoice :: "string \<Rightarrow> string" where
  "resolveVoice requestedVoice =
     (case map_of VOICE_MAP requestedVoice of
        Some v \<Rightarrow> v
      | None \<Rightarrow> the (map_of VOICE_MAP ''female''))"

definition getSimplifiedVoiceName :: "string \<Rightarrow> string" where
  "getSimplifiedVoiceName voiceName =
     (if voiceName = ''female'' \<or> voiceName = ''male'' \<or> voiceName = ''neural-female''
         \<or> voiceName = ''neural-male'' then voiceName
      else if voiceName = ''en-US-Standard-C'' then ''female''
      else if voiceName = ''en-US-Standard-B'' then ''male''
      else if voiceName = ''en-US-Neural2-F'' then ''neural-female''
      else if voiceName = ''en-US-Neural2-D'' then ''neural-male''
      else ''female'')"

subsection \<open>JavaScript values and the cache key\<close>

datatype json =
    JString jsstring
  | JNumber real
  | JObject "(string \<times> json) list"
  | JArray "json list"

text \<open>\<^verbatim>\<open>v || d\<close> for a property that may be absent.\<close>

fun truthy :: "json \<Rightarrow> bool" where
  "truthy (JString s) = (s \<noteq> [])"
| "truthy (JNumber x) = (x \<noteq> 0)"
| "truthy (JObject kvs) = True"
| "truthy (JArray vs) = True"

definition or_default :: "json option \<Rightarrow> json \<Rightarrow> json" where
  "or_default v d = (case v of None \<Rightarrow> d | Some x \<Rightarrow> if truthy x then x else d)"

text \<open>What \<^verbatim>\<open>synthesizeSpeech\<close> of the Google client is called with.\<close>

record tts_request =
  input_text :: jsstring
  voice_languageCode :: string
  voice_name :: string
  audioEncoding :: string
  speakingRate :: json
  pitch :: json
  volumeGainDb :: json
  sampleRateHertz :: nat

text \<open>
  The library and the process environment. \<open>ttsClient\<close> is \<open>None\<close> until the service is
  initialised with credentials; the client's \<^verbatim>\<open>synthesizeSpeech\<close> returns the audio content
  or throws, \<open>Inl\<close> of the error's message. \<open>sineSample i\<close> is
  \<^verbatim>\<open>Math.round(Math.sin(2 * Math.PI * 440 * (i / 22050)) * 0.3 * 32767)\<close>.
\<close>

record env =
  JSON_stringify :: "json \<Rightarrow> jsstring"
  sha256_hex :: "jsstring \<Rightarrow> string"
  BACKEND_URL :: "string option"
  ttsClient :: "(tts_request \<Rightarrow> string + bytes) option"
  sineSample :: "nat \<Rightarrow> int"

text \<open>The object \<^verbatim>\<open>{ text, voiceName, audioConfig }\<close> that \<^verbatim>\<open>generateCacheKey\<close> serialises.\<close>

definition cacheKeyContent :: "jsstring \<Rightarrow> string \<Rightarrow> (string \<times> json) list \<Rightarrow> json" where
  "cacheKeyContent text voiceName audioConfig =
     JObject [(''text'', JString text),
              (''voiceName'', JString (js voiceName)),
              (''audioConfig'', JObject audioConfig)]"

definition generateCacheKey :: "env \<Rightarrow> jsstring \<Rightarrow> string \<Rightarrow> (string \<times> json) list \<Rightarrow> string" where
  "generateCacheKey e text voiceName audioConfig =
     (let content = JSON_stringify e (cacheKeyContent text voiceName audioConfig)
      in sha256_hex e content)"

subsection \<open>The cache directory\<close>

text \<open>
  The cache directory is a list of entries in the order \<^verbatim>\<open>readdirSync\<close> lists them, or
  absent. The \<^verbatim>\<open>fs\<close> calls of the service throw in these ways: the directory is absent
  (\<open>ENOENT\<close>), the file system is read-only (\<open>EROFS\<close>), \<^verbatim>\<open>statSync\<close> follows a dangling link
  (\<open>ENOENT\<close>), \<^verbatim>\<open>unlinkSync\<close> or \<^verbatim>\<open>writeFileSync\<close> is given a directory (\<open>EISDIR\<close>).
\<close>

datatype kind = RegularFile | Directory | DanglingLink

record dirent =
  d_name :: string
  d_mtime :: int
  d_kind :: kind
  d_data :: bytes

record filesystem =
  cacheDir :: "dirent list option"
  readOnly :: bool

definition ENOENT :: string where
  "ENOENT = ''ENOENT: no such file or directory''"

definition EROFS :: string where
  "EROFS = ''EROFS: read-only file system''"

definition EISDIR :: string where
  "EISDIR = ''EISDIR: illegal operation on a directory''"

definition existsSync :: "filesystem \<Rightarrow> bool" where
  "existsSync fs \<longleftrightarrow> cacheDir fs \<noteq> None"

definition mkdirSync :: "filesystem \<Rightarrow> string + filesystem" where
  "mkdirSync fs =
     (if readOnly fs then Inl EROFS
      else case cacheDir fs of
             None \<Rightarrow> Inr (fs\<lparr>cacheDir := Some []\<rparr>)
           | Some es \<Rightarrow> Inr fs)"

definition readdirSync :: "filesystem \<Rightarrow> string + string list" where
  "readdirSync fs =
     (case cacheDir fs of
        None \<Rightarrow> Inl ENOENT
      | Some es \<Rightarrow> Inr (map d_name es))"

definition statSync :: "filesystem \<Rightarrow> string \<Rightarrow> string + int" where
  "statSync fs file =
     (case cacheDir fs of
        None \<Rightarrow> Inl ENOENT
      | Some es \<Rightarrow>
          (case find (\<lambda>e. d_name e = file) es of
             None \<Rightarrow> Inl ENOENT
           | Some e \<Rightarrow> if d_kind e = DanglingLink then Inl ENOENT else Inr (d_mtime e)))"

definition unlinkSync :: "filesystem \<Rightarrow> string \<Rightarrow> string + filesystem" where
  "unlinkSync fs file =
     (if readOnly fs then Inl EROFS
      else case cacheDir fs of
             None \<Rightarrow> Inl ENOENT
           | Some es \<Rightarrow>
               (case find (\<lambda>e. d_name e = file) es of
                  None \<Rightarrow> Inl ENOENT
                | Some e \<Rightarrow>
                    if d_kind e = Directory then Inl EISDIR
                    else Inr (fs\<lparr>cacheDir := Some (filter (\<lambda>e. d_name e \<noteq> file) es)\<rparr>)))"

definition writeFileSync :: "filesystem \<Rightarrow> int \<Rightarrow> string \<Rightarrow> bytes \<Rightarrow> string + filesystem" where
  "writeFileSync fs now file content =
     (if readOnly fs then Inl EROFS
      else case cacheDir fs of
             None \<Rightarrow> Inl ENOENT
           | Some es \<Rightarrow>
               (case find (\<lambda>e. d_name e = file) es of
                  Some e \<Rightarrow>
                    if d_kind e = Directory then Inl EISDIR
                    else Inr (fs\<lparr>cacheDir := Some (map (\<lambda>x. if d_name x = file
                                 then \<lparr>d_name = file, d_mtime = now, d_kind = RegularFile,
                                       d_data = content\<rparr> else x) es)\<rparr>)
                | None \<Rightarrow>
                    Inr (fs\<lparr>cacheDir := Some (es @ [\<lparr>d_name = file, d_mtime = now,
                                 d_kind = RegularFile, d_data = content\<rparr>])\<rparr>)))"

subsection \<open>The world\<close>

text \<open>A user id is the number of the user's row, or the string \<^verbatim>\<open>'anonymous'\<close>.\<close>

datatype js_id = IdNumber nat | IdString string

record usage =
  u_userId :: js_id
  u_date :: string
  u_totalCharacters :: nat
  u_totalRequests :: nat
  u_totalCostUSD :: real

text \<open>
  \<open>console\<close> collects the messages of \<^verbatim>\<open>console.error\<close>, the latest last.
\<close>

record world =
  files :: filesystem
  usageCache :: "string \<rightharpoonup> usage"
  console :: "string list"

definition console_error :: "string \<Rightarrow> string \<Rightarrow> world \<Rightarrow> world" where
  "console_error label message w = w\<lparr>console := console w @ [label @ '' '' @ message]\<rparr>"

definition ensureCacheDirectory :: "filesystem \<Rightarrow> string + filesystem" where
  "ensureCacheDirectory fs = (if \<not> existsSync fs then mkdirSync fs else Inr fs)"

subsection \<open>Cache eviction\<close>

text \<open>
  The body of the \<^verbatim>\<open>forEach\<close> of \<^verbatim>\<open>cleanCache\<close>, over the names that \<^verbatim>\<open>readdirSync\<close>
  returned. The first call that throws ends the loop: the result carries the error and the
  file system as the earlier iterations left it.
\<close>

fun sweep :: "int \<Rightarrow> int \<Rightarrow> string list \<Rightarrow> filesystem \<Rightarrow> string option \<times> filesystem" where
  "sweep now maxAge [] fs = (None, fs)"
| "sweep now maxAge (file # rest) fs =
     (case statSync fs file of
        Inl err \<Rightarrow> (Some err, fs)
      | Inr mtime \<Rightarrow>
          if now - mtime > maxAge then
            (case unlinkSync fs file of
               Inl err \<Rightarrow> (Some err, fs)
             | Inr fs' \<Rightarrow> sweep now maxAge rest fs')
          else sweep now maxAge rest fs)"

text \<open>
  The \<^verbatim>\<open>try\<close> block of \<^verbatim>\<open>cleanCache\<close>, and the function itself: the \<^verbatim>\<open>catch\<close> clause logs
  the error and returns, so \<^verbatim>\<open>cleanCache\<close> has no error result.
\<close>

definition cleanCache_try :: "int \<Rightarrow> filesystem \<Rightarrow> string option \<times> filesystem" where
  "cleanCache_try now fs =
     (let maxAge = cacheExpiryHours TTS_CONFIG * 60 * 60 * 1000
      in case readdirSync fs of
           Inl err \<Rightarrow> (Some err, fs)
         | Inr names \<Rightarrow> sweep now maxAge names fs)"

definition cleanCache :: "int \<Rightarrow> world \<Rightarrow> world" where
  "cleanCache now w =
     (case cleanCache_try now (files w) of
        (None, fs') \<Rightarrow> w\<lparr>files := fs'\<rparr>
      | (Some err, fs') \<Rightarrow> console_error ''Error cleaning TTS cache:'' err (w\<lparr>files := fs'\<rparr>))"

subsection \<open>Example worlds\<close>

text \<open>
  A cache directory that holds a subdirectory and a cached file, both last modified at
  time 0, and one that holds a stale and a fresh cached file.
\<close>

definition stale_file :: dirent where
  "stale_file = \<lparr>d_name = ''tts-female-0123456789ab-0.wav'', d_mtime = 0,
                  d_kind = RegularFile, d_data = []\<rparr>"

definition fresh_file :: dirent where
  "fresh_file = \<lparr>d_name = ''tts-male-ba9876543210-604800000.wav'', d_mtime = 604800000,
                  d_kind = RegularFile, d_data = []\<rparr>"

definition subdirectory :: dirent where
  "subdirectory = \<lparr>d_name = ''archive'', d_mtime = 0, d_kind = Directory, d_data = []\<rparr>"

definition world_of :: "dirent list \<Rightarrow> world" where
  "world_of es = \<lparr>files = \<lparr>cacheDir = Some es, readOnly = False\<rparr>,
                   usageCache = Map.empty, console = []\<rparr>"

subsection \<open>Text: UTF-8 length, trimming, sentences\<close>

text \<open>
  \<^verbatim>\<open>Buffer.byteLength(s, 'utf8')\<close>: a surrogate pair is one code point of four bytes, any
  other code unit is one code point of one, two or three bytes (a lone surrogate is written
  as U+FFFD, three bytes).
\<close>

definition isHighSurrogate :: "16 word \<Rightarrow> bool" where
  "isHighSurrogate c \<longleftrightarrow> 0xD800 \<le> c \<and> c \<le> 0xDBFF"

definition isLowSurrogate :: "16 word \<Rightarrow> bool" where
  "isLowSurrogate c \<longleftrightarrow> 0xDC00 \<le> c \<and> c \<le> 0xDFFF"

definition unitBytes :: "16 word \<Rightarrow> nat" where
  "unitBytes c = (if c < 0x80 then 1 else if c < 0x800 then 2 else 3)"

fun byteLength :: "jsstring \<Rightarrow> nat" where
  "byteLength [] = 0"
| "byteLength [c] = unitBytes c"
| "byteLength (c # d # cs) =
     (if isHighSurrogate c \<and> isLowSurrogate d then 4 + byteLength cs
      else unitBytes c + byteLength (d # cs))"

text \<open>\<^verbatim>\<open>s.trim()\<close> removes white space and line terminators at both ends.\<close>

definition isWhiteSpace :: "16 word \<Rightarrow> bool" where
  "isWhiteSpace c \<longleftrightarrow>
     c \<in> {0x09, 0x0A, 0x0B, 0x0C, 0x0D, 0x20, 0xA0, 0x1680, 0x2028, 0x2029, 0x202F, 0x205F,
          0x3000, 0xFEFF}
     \<or> (0x2000 \<le> c \<and> c \<le> 0x200A)"

definition trim :: "jsstring \<Rightarrow> jsstring" where
  "trim s = rev (dropWhile isWhiteSpace (rev (dropWhile isWhiteSpace s)))"

text \<open>
  \<^verbatim>\<open>text.split(/[.!?]+/)\<close>: the pieces between maximal runs of terminal punctuation, an
  empty piece where the text starts or ends with such a run.
\<close>

definition isTerminal :: "16 word \<Rightarrow> bool" where
  "isTerminal c \<longleftrightarrow> c = 0x2E \<or> c = 0x21 \<or> c = 0x3F"

function split_terminal :: "jsstring \<Rightarrow> jsstring list" where
  "split_terminal [] = [[]]"
| "split_terminal (c # cs) =
     (if isTerminal c then [] # split_terminal (dropWhile isTerminal cs)
      else (case split_terminal cs of
              [] \<Rightarrow> [[c]]
            | piece # pieces \<Rightarrow> (c # piece) # pieces))"
  by pat_completeness auto
termination
  by (relation "measure length") (auto simp: less_Suc_eq_le length_dropWhile_le)

subsection \<open>Chunking of oversized text\<close>

text \<open>
  The loop \<^verbatim>\<open>for (const sentence of sentences)\<close> of \<^verbatim>\<open>generateTTS\<close>, with its two
  variables \<^verbatim>\<open>chunks\<close> and \<^verbatim>\<open>currentChunk\<close>; a non-empty string is truthy.
\<close>

definition maxChunkSize :: nat where
  "maxChunkSize = 4500"

fun chunkLoop :: "jsstring list \<Rightarrow> jsstring list \<Rightarrow> jsstring \<Rightarrow> jsstring list \<times> jsstring" where
  "chunkLoop [] chunks currentChunk = (chunks, currentChunk)"
| "chunkLoop (sentence # rest) chunks currentChunk =
     (let potentialChunk = currentChunk @ sentence @ js ''.''
      in if byteLength potentialChunk > maxChunkSize \<and> currentChunk \<noteq> []
         then chunkLoop rest (chunks @ [trim currentChunk]) (sentence @ js ''.'')
         else chunkLoop rest chunks potentialChunk)"

definition chunkText :: "jsstring \<Rightarrow> jsstring list" where
  "chunkText t =
     (let sentences = filter (\<lambda>s. trim s \<noteq> []) (split_terminal t);
          (chunks, currentChunk) = chunkLoop sentences [] []
      in if trim currentChunk \<noteq> [] then chunks @ [trim currentChunk] else chunks)"

text \<open>
  The loop over the chunks: one provider call per chunk, in order; the first call that
  throws ends the loop with its error.
\<close>

fun synthesizeAll :: "(tts_request \<Rightarrow> string + bytes) \<Rightarrow> tts_request list \<Rightarrow> string + bytes list" where
  "synthesizeAll client [] = Inr []"
| "synthesizeAll client (r # rs) =
     (case client r of
        Inl err \<Rightarrow> Inl err
      | Inr audio \<Rightarrow>
          (case synthesizeAll client rs of
             Inl err \<Rightarrow> Inl err
           | Inr audios \<Rightarrow> Inr (audio # audios)))"

subsection \<open>Locally generated audio\<close>

text \<open>
  \<^verbatim>\<open>x & 0xFF, (x >> 8) & 0xFF, (x >> 16) & 0xFF, (x >> 24) & 0xFF\<close>: the four bytes of the
  32-bit two's complement of \<open>x\<close>, the lowest first.
\<close>

definition le32 :: "32 word \<Rightarrow> bytes" where
  "le32 x = [ucast x, ucast (drop_bit 8 x), ucast (drop_bit 16 x), ucast (drop_bit 24 x)]"

text \<open>
  The 44 bytes of the WAV header that \<^verbatim>\<open>generateMockTTS\<close> and \<^verbatim>\<open>generateSilenceBuffer\<close>
  build, for mono 16-bit PCM.
\<close>

definition wavHeader :: "nat \<Rightarrow> nat \<Rightarrow> bytes" where
  "wavHeader sampleRate dataSize =
     (let fileSize = 36 + dataSize
      in [0x52, 0x49, 0x46, 0x46] @ le32 (of_nat fileSize) @ [0x57, 0x41, 0x56, 0x45]
         @ [0x66, 0x6D, 0x74, 0x20] @ [0x10, 0x00, 0x00, 0x00] @ [0x01, 0x00] @ [0x01, 0x00]
         @ le32 (of_nat sampleRate) @ le32 (of_nat (sampleRate * 2)) @ [0x02, 0x00] @ [0x10, 0x00]
         @ [0x64, 0x61, 0x74, 0x61] @ le32 (of_nat dataSize))"

record tts_response =
  resp_audioContent :: bytes
  resp_characterCount :: nat
  resp_voiceUsed :: string
  resp_duration :: int
  resp_chunkCount :: "nat option"

definition generateMockTTS :: "env \<Rightarrow> jsstring \<Rightarrow> string \<Rightarrow> tts_response" where
  "generateMockTTS e t voiceName =
     (let characterCount = length t;
          sampleRate = 22050;
          duration = max 1 (Math_ceil (real characterCount / 100));
          numSamples = sampleRate * nat duration;
          samples = concat (map (\<lambda>i. let sample = (word_of_int (sineSample e i) :: 32 word)
                                       in [ucast sample, ucast (drop_bit 8 sample)])
                                [0..<numSamples]);
          dataSize = length samples
      in \<lparr>resp_audioContent = wavHeader sampleRate dataSize @ samples,
          resp_characterCount = characterCount,
          resp_voiceUsed = voiceName,
          resp_duration = duration,
          resp_chunkCount = None\<rparr>)"

definition generateSilenceBuffer :: "real \<Rightarrow> bytes" where
  "generateSilenceBuffer durationSeconds =
     (let silenceDuration = max (1 / 10) durationSeconds;
          sampleRate = 24000;
          numSamples = nat (Math_floor (real sampleRate * silenceDuration));
          silentSamples = replicate (numSamples * 2) 0;
          dataSize = length silentSamples
      in wavHeader sampleRate dataSize @ silentSamples)"

subsection \<open>Usage tracking\<close>

text \<open>\<^verbatim>\<open>`${userId}`\<close>, and the truthiness of a user id.\<close>

fun id_string :: "js_id \<Rightarrow> string" where
  "id_string (IdNumber n) = decimal n"
| "id_string (IdString s) = s"

fun id_truthy :: "js_id \<Rightarrow> bool" where
  "id_truthy (IdNumber n) = (n \<noteq> 0)"
| "id_truthy (IdString s) = (s \<noteq> [])"

text \<open>\<open>today\<close> is \<^verbatim>\<open>new Date().toISOString().split('T')[0]\<close>.\<close>

definition trackTTSUsage ::
  "string \<Rightarrow> js_id \<Rightarrow> nat \<Rightarrow> string \<Rightarrow> (string \<rightharpoonup> usage) \<Rightarrow> (string \<rightharpoonup> usage)" where
  "trackTTSUsage today userId characterCount voiceName cache =
     (let userKey = id_string userId @ ''-'' @ today;
          usage = (case cache userKey of
                     None \<Rightarrow> \<lparr>u_userId = userId, u_date = today, u_totalCharacters = 0,
                               u_totalRequests = 0, u_totalCostUSD = 0\<rparr>
                   | Some u \<Rightarrow> u)
      in cache(userKey \<mapsto> usage\<lparr>u_totalCharacters := u_totalCharacters usage + characterCount,
                                 u_totalRequests := u_totalRequests usage + 1,
                                 u_totalCostUSD := u_totalCostUSD usage
                                     + calculateCostUSD characterCount voiceName\<rparr>))"

text \<open>
  \<^verbatim>\<open>if (userId && userId !== 'anonymous') { trackTTSUsage(userId, ...) }\<close>, the statement
  of both \<^verbatim>\<open>generateTTS\<close> and \<^verbatim>\<open>generateConversationTTS\<close>.
\<close>

definition track :: "string \<Rightarrow> js_id \<Rightarrow> nat \<Rightarrow> string \<Rightarrow> world \<Rightarrow> world" where
  "track today userId characterCount voiceName w =
     (if id_truthy userId \<and> userId \<noteq> IdString ''anonymous''
      then w\<lparr>usageCache := trackTTSUsage today userId characterCount voiceName (usageCache w)\<rparr>
      else w)"

subsection \<open>Single-segment synthesis\<close>

text \<open>The argument of \<^verbatim>\<open>generateTTS\<close>; \<open>None\<close> is a property left out.\<close>

record tts_call =
  rq_text :: jsstring
  rq_languageCode :: "string option"
  rq_voiceName :: "string option"
  rq_audioConfig :: "(string \<times> json) list option"
  rq_userId :: "js_id option"
  rq_characterCount :: "nat option"

text \<open>The destructuring of the request with its defaults, and the constants of the body.\<close>

definition languageCodeOf :: "tts_call \<Rightarrow> string" where
  "languageCodeOf rq = (case rq_languageCode rq of None \<Rightarrow> ''en-US'' | Some l \<Rightarrow> l)"

definition requestedVoice :: "tts_call \<Rightarrow> string" where
  "requestedVoice rq = (case rq_voiceName rq of None \<Rightarrow> ''female'' | Some v \<Rightarrow> v)"

definition audioConfigOf :: "tts_call \<Rightarrow> (string \<times> json) list" where
  "audioConfigOf rq = (case rq_audioConfig rq of None \<Rightarrow> [] | Some c \<Rightarrow> c)"

definition userIdOf :: "tts_call \<Rightarrow> js_id" where
  "userIdOf rq = (case rq_userId rq of None \<Rightarrow> IdString ''anonymous'' | Some u \<Rightarrow> u)"

definition characterCountOf :: "tts_call \<Rightarrow> nat" where
  "characterCountOf rq = (case rq_characterCount rq of None \<Rightarrow> length (rq_text rq) | Some n \<Rightarrow> n)"

definition voiceNameOf :: "tts_call \<Rightarrow> string" where
  "voiceNameOf rq = resolveVoice (requestedVoice rq)"

definition cacheKeyOf :: "env \<Rightarrow> tts_call \<Rightarrow> string" where
  "cacheKeyOf e rq = generateCacheKey e (rq_text rq) (voiceNameOf rq) (audioConfigOf rq)"

definition voicePartOf :: "tts_call \<Rightarrow> string" where
  "voicePartOf rq = getSimplifiedVoiceName (voiceNameOf rq)"

definition hashPartOf :: "env \<Rightarrow> tts_call \<Rightarrow> string" where
  "hashPartOf e rq = take 12 (cacheKeyOf e rq)"

definition filenameOf :: "env \<Rightarrow> nat \<Rightarrow> tts_call \<Rightarrow> string" where
  "filenameOf e now rq =
     ''tts-'' @ voicePartOf rq @ ''-'' @ hashPartOf e rq @ ''-'' @ decimal now @ ''.wav''"

definition existingFileOf :: "env \<Rightarrow> tts_call \<Rightarrow> string list \<Rightarrow> string option" where
  "existingFileOf e rq existingFiles =
     find (\<lambda>file. str_includes file (hashPartOf e rq) \<and> str_includes file (voicePartOf rq))
          existingFiles"

definition audioUrlOf :: "env \<Rightarrow> string \<Rightarrow> string" where
  "audioUrlOf e file =
     (case BACKEND_URL e of
        None \<Rightarrow> ''http://localhost:5000''
      | Some u \<Rightarrow> if u \<noteq> [] then u else ''http://localhost:5000'')
     @ ''/tts-cache/'' @ file"

definition ttsRequestOf :: "tts_call \<Rightarrow> tts_request" where
  "ttsRequestOf rq =
     \<lparr>input_text = rq_text rq,
      voice_languageCode = languageCodeOf rq,
      voice_name = voiceNameOf rq,
      audioEncoding = ''MP3'',
      speakingRate = or_default (map_of (audioConfigOf rq) ''speakingRate'') (JNumber 1),
      pitch = or_default (map_of (audioConfigOf rq) ''pitch'') (JNumber 0),
      volumeGainDb = or_default (map_of (audioConfigOf rq) ''volumeGainDb'') (JNumber 0),
      sampleRateHertz = 24000\<rparr>"

text \<open>
  The inner \<^verbatim>\<open>try\<close> block: the calls of the provider, chunked when the text is longer than
  5000 bytes.
\<close>

definition callProvider :: "(tts_request \<Rightarrow> string + bytes) \<Rightarrow> tts_call \<Rightarrow> string + tts_response" where
  "callProvider client rq =
     (let textBytes = byteLength (rq_text rq)
      in if textBytes > 5000 then
           (let chunks = chunkText (rq_text rq)
            in case synthesizeAll client (map (\<lambda>c. (ttsRequestOf rq)\<lparr>input_text := c\<rparr>) chunks) of
                 Inl err \<Rightarrow> Inl err
               | Inr audioChunks \<Rightarrow>
                   Inr \<lparr>resp_audioContent = concat audioChunks,
                        resp_characterCount = characterCountOf rq,
                        resp_voiceUsed = voiceNameOf rq,
                        resp_duration = Math_ceil (real (characterCountOf rq) / 10),
                        resp_chunkCount = Some (length chunks)\<rparr>)
         else
           (case client (ttsRequestOf rq) of
              Inl err \<Rightarrow> Inl err
            | Inr audio \<Rightarrow>
                Inr \<lparr>resp_audioContent = audio,
                     resp_characterCount = characterCountOf rq,
                     resp_voiceUsed = voiceNameOf rq,
                     resp_duration = Math_ceil (real (characterCountOf rq) / 10),
                     resp_chunkCount = None\<rparr>))"

text \<open>
  \<^verbatim>\<open>if (ttsClient) { try { ... } catch (googleError) { ... } } else { ... }\<close>: whatever the
  provider throws is logged and replaced by the local generator's audio.
\<close>

definition synthesize :: "env \<Rightarrow> tts_call \<Rightarrow> world \<Rightarrow> tts_response \<times> world" where
  "synthesize e rq w =
     (case ttsClient e of
        Some client \<Rightarrow>
          (case callProvider client rq of
             Inr ttsResponse \<Rightarrow> (ttsResponse, w)
           | Inl message \<Rightarrow>
               (generateMockTTS e (rq_text rq) (voiceNameOf rq),
                console_error ''Google Cloud TTS API error:'' message w))
      | None \<Rightarrow> (generateMockTTS e (rq_text rq) (voiceNameOf rq), w))"

record tts_result =
  audioUrl :: string
  res_characterCount :: nat
  estimatedCostUSD :: real
  res_voiceUsed :: string
  cacheHit :: bool
  res_duration :: int

text \<open>
  The outer \<^verbatim>\<open>try\<close> block of \<^verbatim>\<open>generateTTS\<close>. \<open>now\<close> is \<^verbatim>\<open>Date.now()\<close>, read once for the
  call, and \<open>random\<close> the value of \<^verbatim>\<open>Math.random()\<close>. A file-system call that throws ends
  the block with the error and the world as it is then.
\<close>

definition generateTTS_try ::
  "env \<Rightarrow> nat \<Rightarrow> string \<Rightarrow> real \<Rightarrow> tts_call \<Rightarrow> world \<Rightarrow> (string + tts_result) \<times> world" where
  "generateTTS_try e now today random rq w =
     (case ensureCacheDirectory (files w) of
        Inl err \<Rightarrow> (Inl err, w)
      | Inr fs1 \<Rightarrow>
          (let w1 = w\<lparr>files := fs1\<rparr>
           in case readdirSync fs1 of
                Inl err \<Rightarrow> (Inl err, w1)
              | Inr existingFiles \<Rightarrow>
                  (case existingFileOf e rq existingFiles of
                     Some existingFile \<Rightarrow>
                       (Inr \<lparr>audioUrl = audioUrlOf e existingFile,
                             res_characterCount = characterCountOf rq,
                             estimatedCostUSD = 0,
                             res_voiceUsed = voiceNameOf rq,
                             cacheHit = True,
                             res_duration = Math_ceil (real (characterCountOf rq) / 10)\<rparr>, w1)
                   | None \<Rightarrow>
                       (let (ttsResponse, w2) = synthesize e rq w1
                        in case writeFileSync (files w2) (int now) (filenameOf e now rq)
                                  (resp_audioContent ttsResponse) of
                             Inl err \<Rightarrow> (Inl err, w2)
                           | Inr fs3 \<Rightarrow>
                               (let w3 = track today (userIdOf rq) (characterCountOf rq)
                                           (voiceNameOf rq) (w2\<lparr>files := fs3\<rparr>);
                                    cost = calculateCostUSD (characterCountOf rq) (voiceNameOf rq);
                                    w4 = (if random < 1 / 10 then cleanCache (int now) w3 else w3)
                                in (Inr \<lparr>audioUrl = audioUrlOf e (filenameOf e now rq),
                                         res_characterCount = resp_characterCount ttsResponse,
                                         estimatedCostUSD = cost,
                                         res_voiceUsed = resp_voiceUsed ttsResponse,
                                         cacheHit = False,
                                         res_duration = resp_duration ttsResponse\<rparr>, w4))))))"

definition generateTTS ::
  "env \<Rightarrow> nat \<Rightarrow> string \<Rightarrow> real \<Rightarrow> tts_call \<Rightarrow> world \<Rightarrow> (string + tts_result) \<times> world" where
  "generateTTS e now today random rq w =
     (case generateTTS_try e now today random rq w of
        (Inr result, w') \<Rightarrow> (Inr result, w')
      | (Inl message, w') \<Rightarrow>
          (Inl (''TTS generation failed: '' @ message),
           console_error ''TTS service error:'' message w'))"

text \<open>
  The \<^verbatim>\<open>catch\<close> clause of the route \<^verbatim>\<open>POST /api/tts/generate\<close> (routes/tts.js): the status
  of the response, from what \<^verbatim>\<open>generateTTS\<close> returned or threw.
\<close>

definition generate_status :: "string + tts_result \<Rightarrow> nat" where
  "generate_status outcome =
     (case outcome of
        Inr result \<Rightarrow> 200
      | Inl message \<Rightarrow>
          if str_includes message ''quota'' then 429
          else if str_includes message ''authentication'' then 401
          else if str_includes message ''billing'' then 402
          else 500)"

subsection \<open>Conversations\<close>

record segment =
  seg_text :: jsstring
  seg_voiceName :: string

record conversation_call =
  conversationSegments :: "segment list"
  cv_userId :: "js_id option"
  speakerPauseDuration :: "real option"

record conversation_result =
  cv_audioUrl :: string
  totalCharacterCount :: nat
  cv_estimatedCostUSD :: real
  cv_cacheHit :: bool
  cv_duration :: real
  cv_conversationSegments :: "segment list"

definition segment_json :: "segment \<Rightarrow> json" where
  "segment_json s = JObject [(''text'', JString (seg_text s)), (''voiceName'', JString (js (seg_voiceName s)))]"

definition conversationKey :: "env \<Rightarrow> segment list \<Rightarrow> string" where
  "conversationKey e segments =
     (let conversationString = JSON_stringify e (JArray (map segment_json segments))
      in generateCacheKey e conversationString ''conversation'' [])"

definition conversationFilename :: "env \<Rightarrow> nat \<Rightarrow> segment list \<Rightarrow> string" where
  "conversationFilename e now segments =
     ''conversation-'' @ take 12 (conversationKey e segments) @ ''-'' @ decimal now @ ''.wav''"

definition existingConversation :: "env \<Rightarrow> segment list \<Rightarrow> string list \<Rightarrow> string option" where
  "existingConversation e segments existingFiles =
     find (\<lambda>file. str_includes file (take 12 (conversationKey e segments))
                  \<and> str_includes file ''conversation'')
          existingFiles"

definition segmentRequest :: "segment \<Rightarrow> tts_request" where
  "segmentRequest s =
     \<lparr>input_text = seg_text s,
      voice_languageCode = ''en-US'',
      voice_name = resolveVoice (seg_voiceName s),
      audioEncoding = ''MP3'',
      speakingRate = JNumber 1,
      pitch = JNumber 0,
      volumeGainDb = JNumber 0,
      sampleRateHertz = 24000\<rparr>"

text \<open>The audio of one segment: the provider's, or the local generator's when it throws.\<close>

definition synthesizeSegment :: "env \<Rightarrow> segment \<Rightarrow> world \<Rightarrow> bytes \<times> world" where
  "synthesizeSegment e s w =
     (case ttsClient e of
        Some client \<Rightarrow>
          (case client (segmentRequest s) of
             Inr audio \<Rightarrow> (audio, w)
           | Inl message \<Rightarrow>
               (resp_audioContent (generateMockTTS e (seg_text s) (resolveVoice (seg_voiceName s))),
                console_error ''Google Cloud TTS API error for segment:'' message w))
      | None \<Rightarrow>
          (resp_audioContent (generateMockTTS e (seg_text s) (resolveVoice (seg_voiceName s))), w))"

text \<open>
  The loop \<^verbatim>\<open>for (let i = 0; i < conversationSegments.length; i++)\<close> over the segments
  still to come, with its variables \<^verbatim>\<open>audioBuffers\<close>, \<^verbatim>\<open>totalCharacters\<close>, \<^verbatim>\<open>totalCost\<close>
  and \<^verbatim>\<open>totalDuration\<close>; \<^verbatim>\<open>i < conversationSegments.length - 1\<close> holds when a segment
  follows.
\<close>

record totals =
  audioBuffers :: "bytes list"
  totalCharacters :: nat
  totalCost :: real
  totalDuration :: int

fun segmentLoop :: "env \<Rightarrow> real \<Rightarrow> segment list \<Rightarrow> totals \<Rightarrow> world \<Rightarrow> totals \<times> world" where
  "segmentLoop e pause [] acc w = (acc, w)"
| "segmentLoop e pause (s # rest) acc w =
     (let voiceName = resolveVoice (seg_voiceName s);
          (segmentResponse, w') = synthesizeSegment e s w;
          buffers = audioBuffers acc @ [segmentResponse];
          buffers' = (if rest \<noteq> [] then buffers @ [generateSilenceBuffer pause] else buffers)
      in segmentLoop e pause rest
           \<lparr>audioBuffers = buffers',
            totalCharacters = totalCharacters acc + length (seg_text s),
            totalCost = totalCost acc + calculateCostUSD (length (seg_text s)) voiceName,
            totalDuration = totalDuration acc + Math_ceil (real (length (seg_text s)) / 10)\<rparr>
           w')"

text \<open>The destructuring of the request with its defaults.\<close>

definition conversationUserId :: "conversation_call \<Rightarrow> js_id" where
  "conversationUserId rq = (case cv_userId rq of None \<Rightarrow> IdString ''anonymous'' | Some u \<Rightarrow> u)"

definition pauseOf :: "conversation_call \<Rightarrow> real" where
  "pauseOf rq = (case speakerPauseDuration rq of None \<Rightarrow> 1 / 2 | Some p \<Rightarrow> p)"

definition generateConversationTTS_try ::
  "env \<Rightarrow> nat \<Rightarrow> string \<Rightarrow> real \<Rightarrow> conversation_call \<Rightarrow> world
     \<Rightarrow> (string + conversation_result) \<times> world" where
  "generateConversationTTS_try e now today random rq w =
     (let segments = conversationSegments rq;
          userId = conversationUserId rq;
          pause = pauseOf rq
      in case ensureCacheDirectory (files w) of
           Inl err \<Rightarrow> (Inl err, w)
         | Inr fs1 \<Rightarrow>
             (let w1 = w\<lparr>files := fs1\<rparr>
              in case readdirSync fs1 of
                   Inl err \<Rightarrow> (Inl err, w1)
                 | Inr existingFiles \<Rightarrow>
                     (case existingConversation e segments existingFiles of
                        Some existingFile \<Rightarrow>
                          (let total = sum_list (map (\<lambda>s. length (seg_text s)) segments)
                           in (Inr \<lparr>cv_audioUrl = audioUrlOf e existingFile,
                                    totalCharacterCount = total,
                                    cv_estimatedCostUSD = 0,
                                    cv_cacheHit = True,
                                    cv_duration = real_of_int (Math_ceil (real total / 10)),
                                    cv_conversationSegments = segments\<rparr>, w1))
                      | None \<Rightarrow>
                          (let (acc, w2) = segmentLoop e pause segments
                                  \<lparr>audioBuffers = [], totalCharacters = 0, totalCost = 0,
                                   totalDuration = 0\<rparr> w1;
                               combinedAudio = concat (audioBuffers acc)
                           in case writeFileSync (files w2) (int now)
                                     (conversationFilename e now segments) combinedAudio of
                                Inl err \<Rightarrow> (Inl err, w2)
                              | Inr fs3 \<Rightarrow>
                                  (let w3 = track today userId (totalCharacters acc)
                                              ''conversation'' (w2\<lparr>files := fs3\<rparr>);
                                       w4 = (if random < 1 / 10 then cleanCache (int now) w3 else w3)
                                   in (Inr \<lparr>cv_audioUrl =
                                              audioUrlOf e (conversationFilename e now segments),
                                            totalCharacterCount = totalCharacters acc,
                                            cv_estimatedCostUSD = totalCost acc,
                                            cv_cacheHit = False,
                                            cv_duration = real_of_int (totalDuration acc)
                                              + (real_of_int (int (length segments) - 1)) * pause,
                                            cv_conversationSegments = segments\<rparr>, w4))))))"

definition generateConversationTTS ::
  "env \<Rightarrow> nat \<Rightarrow> string \<Rightarrow> real \<Rightarrow> conversation_call \<Rightarrow> world
     \<Rightarrow> (string + conversation_result) \<times> world" where
  "generateConversationTTS e now today random rq w =
     (case generateConversationTTS_try e now today random rq w of
        (Inr result, w') \<Rightarrow> (Inr result, w')
      | (Inl message, w') \<Rightarrow>
          (Inl (''Conversation TTS generation failed: '' @ message),
           console_error ''Conversation TTS service error:'' message w'))"

subsection \<open>Names for the statements\<close>

text \<open>
  The names that \<^verbatim>\<open>readdirSync\<close> returns after \<^verbatim>\<open>ensureCacheDirectory\<close>: those of the
  cache directory, none when it is yet to be created.
\<close>

definition cacheListing :: "world \<Rightarrow> string list" where
  "cacheListing w = (case cacheDir (files w) of None \<Rightarrow> [] | Some es \<Rightarrow> map d_name es)"

text \<open>
  The audio of a segment, which does not depend on the world: the provider's, or the local
  generator's when there is no client or the call throws.
\<close>

definition segmentAudio :: "env \<Rightarrow> segment \<Rightarrow> bytes" where
  "segmentAudio e s =
     (case ttsClient e of
        None \<Rightarrow> resp_audioContent (generateMockTTS e (seg_text s) (resolveVoice (seg_voiceName s)))
      | Some client \<Rightarrow>
          (case client (segmentRequest s) of
             Inr audio \<Rightarrow> audio
           | Inl message \<Rightarrow>
               resp_audioContent (generateMockTTS e (seg_text s) (resolveVoice (seg_voiceName s)))))"

text \<open>
  The conversation as the spec describes it: the segments' buffers in input order, with
  the pause buffer between consecutive ones and none after the last.
\<close>

fun withPauses :: "'a \<Rightarrow> 'a list \<Rightarrow> 'a list" where
  "withPauses p [] = []"
| "withPauses p [a] = [a]"
| "withPauses p (a # b # rest) = a # p # withPauses p (b # rest)"

text \<open>The entries of the cache directory, none when it is yet to be created.\<close>

definition cacheEntries :: "world \<Rightarrow> dirent list" where
  "cacheEntries w = (case cacheDir (files w) of None \<Rightarrow> [] | Some es \<Rightarrow> es)"

text \<open>
  The conversation of the spec's example,
  \<^verbatim>\<open>[{ text: 'Hi', voiceName: 'female' }, { text: 'Hello', voiceName: 'neural-male' }]\<close>,
  with the default pause and no user.
\<close>

definition hi_hello :: conversation_call where
  "hi_hello =
     \<lparr>conversationSegments =
        [\<lparr>seg_text = js ''Hi'', seg_voiceName = ''female''\<rparr>,
         \<lparr>seg_text = js ''Hello'', seg_voiceName = ''neural-male''\<rparr>],
      cv_userId = None,
      speakerPauseDuration = None\<rparr>"


text \<open>
  Two texts of more than 5000 bytes: 5001 times the letter \<^verbatim>\<open>a\<close>, without punctuation, and
  3000 times \<^verbatim>\<open>a\<close>, a full stop, 3000 times \<^verbatim>\<open>b\<close>.
\<close>

definition one_long_sentence :: jsstring where
  "one_long_sentence = replicate 5001 0x61"

definition two_sentences :: jsstring where
  "two_sentences = replicate 3000 0x61 @ [0x2E] @ replicate 3000 0x62"

text \<open>A client that answers every request with the low byte of the first character.\<close>

definition initial_client :: "tts_request \<Rightarrow> string + bytes" where
  "initial_client r = Inr (map ucast (take 1 (input_text r)))"

text \<open>An environment from its library functions and its client.\<close>

definition env_of ::
  "(json \<Rightarrow> jsstring) \<Rightarrow> (jsstring \<Rightarrow> string) \<Rightarrow> (nat \<Rightarrow> int)
     \<Rightarrow> (tts_request \<Rightarrow> string + bytes) option \<Rightarrow> env" where
  "env_of stringify sha256 sine client =
     \<lparr>JSON_stringify = stringify, sha256_hex = sha256, BACKEND_URL = None,
      ttsClient = client, sineSample = sine\<rparr>"

text \<open>The request of the spec's example: \<^verbatim>\<open>{ text: 'Hello world', voiceName: 'female' }\<close>.\<close>

definition hello_world :: tts_call where
  "hello_world =
     \<lparr>rq_text = js ''Hello world'', rq_languageCode = None, rq_voiceName = Some ''female'',
      rq_audioConfig = None, rq_userId = None, rq_characterCount = None\<rparr>"

section \<open>Properties\<close>

subsection \<open>Cost model\<close>







subsection \<open>Cache eviction\<close>

lemma find_name_unique:
  "find (\<lambda>e. d_name e = f) es = Some e0 \<Longrightarrow> distinct (map d_name es) \<Longrightarrow>
   e \<in> set es \<Longrightarrow> d_name e = f \<Longrightarrow> e = e0"
  by (induction es) (auto split: if_splits)

lemma find_name_mem:
  "find (\<lambda>e. d_name e = f) es = Some e0 \<Longrightarrow> e0 \<in> set es \<and> d_name e0 = f"
  by (induction es) (auto split: if_splits)

lemma statSync_Inr:
  "statSync fs f = Inr m \<Longrightarrow>
   \<exists>es e0. cacheDir fs = Some es \<and> find (\<lambda>e. d_name e = f) es = Some e0 \<and> d_mtime e0 = m"
  by (auto simp: statSync_def split: option.splits if_splits)

lemma unlinkSync_Inr:
  "unlinkSync fs f = Inr fs' \<Longrightarrow> cacheDir fs = Some es \<Longrightarrow>
   fs' = fs\<lparr>cacheDir := Some (filter (\<lambda>e. d_name e \<noteq> f) es)\<rparr>"
  by (auto simp: unlinkSync_def split: option.splits if_splits)

lemma sweep_inv:
  "cacheDir fs = Some es \<Longrightarrow> distinct (map d_name es) \<Longrightarrow>
   sweep now maxAge names fs = (r, fs') \<Longrightarrow>
   \<exists>es'. cacheDir fs' = Some es' \<and> readOnly fs' = readOnly fs \<and> set es' \<subseteq> set es
      \<and> (\<forall>e\<in>set es. now - d_mtime e \<le> maxAge \<longrightarrow> e \<in> set es')
      \<and> (r = None \<longrightarrow> (\<forall>e\<in>set es'. d_name e \<in> set names \<longrightarrow> now - d_mtime e \<le> maxAge))"
proof (induction names arbitrary: fs es)
  case Nil
  then show ?case by auto
next
  case (Cons f rest)
  show ?case
  proof (cases "statSync fs f")
    case (Inl err)
    with Cons.prems show ?thesis by auto
  next
    case (Inr m)
    then obtain e0 where e0: "find (\<lambda>e. d_name e = f) es = Some e0" "d_mtime e0 = m"
      using statSync_Inr Cons.prems(1) by fastforce
    show ?thesis
    proof (cases "now - m > maxAge")
      case old: True
      show ?thesis
      proof (cases "unlinkSync fs f")
        case (Inl err)
        with Cons.prems Inr old show ?thesis by auto
      next
        case unl: (Inr fs2)
        let ?es2 = "filter (\<lambda>e. d_name e \<noteq> f) es"
        have fs2: "fs2 = fs\<lparr>cacheDir := Some ?es2\<rparr>"
          using unlinkSync_Inr [OF unl Cons.prems(1)] .
        have d2: "distinct (map d_name ?es2)"
          using Cons.prems(2) by (simp add: distinct_map_filter)
        have sw: "sweep now maxAge rest fs2 = (r, fs')"
          using Cons.prems(3) Inr old unl by simp
        from Cons.IH [OF _ d2 sw] fs2
        obtain es' where es': "cacheDir fs' = Some es'" "readOnly fs' = readOnly fs"
          "set es' \<subseteq> set ?es2"
          "\<forall>e\<in>set ?es2. now - d_mtime e \<le> maxAge \<longrightarrow> e \<in> set es'"
          "r = None \<longrightarrow> (\<forall>e\<in>set es'. d_name e \<in> set rest \<longrightarrow> now - d_mtime e \<le> maxAge)"
          by auto
        have young: "\<forall>e\<in>set es. now - d_mtime e \<le> maxAge \<longrightarrow> e \<in> set es'"
        proof (intro ballI impI)
          fix e assume e: "e \<in> set es" "now - d_mtime e \<le> maxAge"
          have "d_name e \<noteq> f"
          proof
            assume "d_name e = f"
            then have "e = e0" using find_name_unique [OF e0(1) Cons.prems(2) e(1)] by simp
            with e0(2) old e(2) show False by simp
          qed
          with e es'(4) show "e \<in> set es'" by simp
        qed
        from es' young show ?thesis by auto
      qed
    next
      case young: False
      have sw: "sweep now maxAge rest fs = (r, fs')"
        using Cons.prems(3) Inr young by simp
      from Cons.IH [OF Cons.prems(1,2) sw]
      obtain es' where es': "cacheDir fs' = Some es'" "readOnly fs' = readOnly fs"
          "set es' \<subseteq> set es"
          "\<forall>e\<in>set es. now - d_mtime e \<le> maxAge \<longrightarrow> e \<in> set es'"
          "r = None \<longrightarrow> (\<forall>e\<in>set es'. d_name e \<in> set rest \<longrightarrow> now - d_mtime e \<le> maxAge)"
        by auto
      have "\<forall>e\<in>set es'. d_name e = f \<longrightarrow> now - d_mtime e \<le> maxAge"
      proof (intro ballI impI)
        fix e assume e: "e \<in> set es'" "d_name e = f"
        then have "e = e0" using find_name_unique [OF e0(1) Cons.prems(2)] es'(3) by auto
        with e0(2) young show "now - d_mtime e \<le> maxAge" by simp
      qed
      with es' show ?thesis by auto
    qed
  qed
qed


lemma cleanCache_try_inv:
  assumes "cacheDir fs = Some es" and "distinct (map d_name es)"
    and "cleanCache_try now fs = (r, fs')"
  shows "\<exists>es'. cacheDir fs' = Some es' \<and> readOnly fs' = readOnly fs \<and> set es' \<subseteq> set es
      \<and> (\<forall>e\<in>set es. now - d_mtime e \<le> 604800000 \<longrightarrow> e \<in> set es')
      \<and> (r = None \<longrightarrow> (\<forall>e\<in>set es'. now - d_mtime e \<le> 604800000))"
proof -
  have sw: "sweep now 604800000 (map d_name es) fs = (r, fs')"
    using assms(1,3) by (simp add: cleanCache_try_def readdirSync_def TTS_CONFIG_def)
  from sweep_inv [OF assms(1,2) sw] show ?thesis by fastforce
qed

text \<open>
  C8 (eviction), as the code has it. In a cache directory whose entries have distinct names,
  a sweep removes nothing but entries of the directory and never an entry whose age
  (\<open>now\<close> minus its modification time) is at most the retention window of 168 hours. When no
  file-system call of the sweep throws, every entry left is within the window and nothing is
  logged. When one throws, the sweep ends there: the error goes to the console and
  \<^const>\<open>cleanCache\<close> returns normally, with the usage map untouched.
\<close>

theorem cleanCache_retention:
  assumes "cacheDir (files w) = Some es" and "distinct (map d_name es)"
  shows "\<exists>es'. cacheDir (files (cleanCache now w)) = Some es' \<and> set es' \<subseteq> set es
      \<and> (\<forall>e\<in>set es. now - d_mtime e \<le> 168 * 60 * 60 * 1000 \<longrightarrow> e \<in> set es')
      \<and> (fst (cleanCache_try now (files w)) = None \<longrightarrow>
           (\<forall>e\<in>set es'. now - d_mtime e \<le> 168 * 60 * 60 * 1000)
           \<and> console (cleanCache now w) = console w)
      \<and> (\<forall>err. fst (cleanCache_try now (files w)) = Some err \<longrightarrow>
           console (cleanCache now w) = console w @ [''Error cleaning TTS cache: '' @ err])
      \<and> usageCache (cleanCache now w) = usageCache w"
proof -
  obtain r fs' where t: "cleanCache_try now (files w) = (r, fs')"
    by (cases "cleanCache_try now (files w)")
  have f: "files (cleanCache now w) = fs'" and u: "usageCache (cleanCache now w) = usageCache w"
    using t by (auto simp: cleanCache_def console_error_def split: option.splits)
  have c: "console (cleanCache now w) =
      (case r of None \<Rightarrow> console w | Some err \<Rightarrow> console w @ [''Error cleaning TTS cache: '' @ err])"
    using t by (auto simp: cleanCache_def console_error_def split: option.splits)
  from cleanCache_try_inv [OF assms t] obtain es' where
    "cacheDir fs' = Some es'" "set es' \<subseteq> set es"
    "\<forall>e\<in>set es. now - d_mtime e \<le> 604800000 \<longrightarrow> e \<in> set es'"
    "r = None \<longrightarrow> (\<forall>e\<in>set es'. now - d_mtime e \<le> 604800000)"
    by blast
  then show ?thesis
    unfolding f u c using t by (intro exI [of _ es']) auto
qed

theorem cleanCache_retention_witness:
  "cacheDir (files (world_of [stale_file, fresh_file])) = Some [stale_file, fresh_file]
   \<and> distinct (map d_name [stale_file, fresh_file])
   \<and> fst (cleanCache_try 1000000000 (files (world_of [stale_file, fresh_file]))) = None
   \<and> (\<exists>es'. cacheDir (files (cleanCache 1000000000 (world_of [stale_file, fresh_file]))) = Some es'
         \<and> set es' = {fresh_file})"
proof -
  let ?w = "world_of [stale_file, fresh_file]"
  have h1: "cacheDir (files ?w) = Some [stale_file, fresh_file]"
    by (simp add: world_of_def)
  have h2: "distinct (map d_name [stale_file, fresh_file])"
    by (simp add: stale_file_def fresh_file_def)
  have ok: "fst (cleanCache_try 1000000000 (files ?w)) = None"
    by (simp add: cleanCache_try_def readdirSync_def world_of_def TTS_CONFIG_def statSync_def
        unlinkSync_def stale_file_def fresh_file_def)
  from cleanCache_retention [OF h1 h2, of 1000000000] ok obtain es' where
    es': "cacheDir (files (cleanCache 1000000000 ?w)) = Some es'"
      "set es' \<subseteq> set [stale_file, fresh_file]"
      "\<forall>e\<in>set [stale_file, fresh_file].
         1000000000 - d_mtime e \<le> 168 * 60 * 60 * 1000 \<longrightarrow> e \<in> set es'"
      "\<forall>e\<in>set es'. 1000000000 - d_mtime e \<le> 168 * 60 * 60 * 1000"
    by auto
  have "fresh_file \<in> set es'"
    using es'(3) by (simp add: fresh_file_def)
  moreover have "stale_file \<notin> set es'"
    using es'(4) by (auto simp: stale_file_def)
  ultimately have "set es' = {fresh_file}"
    using es'(2) by auto
  with h1 h2 ok es'(1) show ?thesis by blast
qed

text \<open>
  A sweep that fails part-way leaves files older than the window in place: the cache
  directory holds a subdirectory and a cached file, both older than seven days;
  \<^verbatim>\<open>unlinkSync\<close> throws on the subdirectory, the \<^verbatim>\<open>catch\<close> clause ends the sweep, and the
  cached file survives it.
\<close>

theorem cleanCache_aborts_on_failure:
  "0 < 604800001 - d_mtime stale_file - cacheExpiryHours TTS_CONFIG * 60 * 60 * 1000
   \<and> cacheDir (files (cleanCache 604800001 (world_of [subdirectory, stale_file])))
       = Some [subdirectory, stale_file]
   \<and> console (cleanCache 604800001 (world_of [subdirectory, stale_file]))
       = [''Error cleaning TTS cache: EISDIR: illegal operation on a directory'']"
  by (simp add: cleanCache_def cleanCache_try_def readdirSync_def world_of_def TTS_CONFIG_def
      statSync_def unlinkSync_def stale_file_def subdirectory_def console_error_def EISDIR_def)

subsection \<open>Cache lookup and the paths of single-segment synthesis\<close>

lemma str_includes_iff: "str_includes s t \<longleftrightarrow> (\<exists>p q. s = p @ t @ q)"
proof (induction s)
  case Nil
  then show ?case by auto
next
  case (Cons c cs)
  show ?case
  proof
    assume "str_includes (c # cs) t"
    then consider "take (length t) (c # cs) = t" | "str_includes cs t" by auto
    then show "\<exists>p q. c # cs = p @ t @ q"
    proof cases
      case 1
      then have "c # cs = [] @ t @ drop (length t) (c # cs)"
        by (metis append_Nil append_take_drop_id)
      then show ?thesis by blast
    next
      case 2
      then obtain p q where "cs = p @ t @ q" using Cons.IH by auto
      then have "c # cs = (c # p) @ t @ q" by simp
      then show ?thesis by blast
    qed
  next
    assume "\<exists>p q. c # cs = p @ t @ q"
    then obtain p q where pq: "c # cs = p @ t @ q" by auto
    show "str_includes (c # cs) t"
    proof (cases p)
      case Nil
      with pq have "take (length t) (c # cs) = t" by simp
      then show ?thesis by simp
    next
      case (Cons a p')
      with pq have "cs = p' @ t @ q" by simp
      then have "str_includes cs t" using Cons.IH by auto
      then show ?thesis by simp
    qed
  qed
qed

lemma str_includes_mid: "str_includes (p @ t @ q) t"
  by (auto simp: str_includes_iff)

lemma filenameOf_includes:
  "str_includes (filenameOf e now rq) (hashPartOf e rq)"
  "str_includes (filenameOf e now rq) (voicePartOf rq)"
proof -
  have "filenameOf e now rq = (''tts-'' @ voicePartOf rq @ ''-'') @ hashPartOf e rq
      @ (''-'' @ decimal now @ ''.wav'')"
    by (simp add: filenameOf_def)
  then show "str_includes (filenameOf e now rq) (hashPartOf e rq)"
    by (metis str_includes_mid)
  have "filenameOf e now rq = ''tts-'' @ voicePartOf rq
      @ (''-'' @ hashPartOf e rq @ ''-'' @ decimal now @ ''.wav'')"
    by (simp add: filenameOf_def)
  then show "str_includes (filenameOf e now rq) (voicePartOf rq)"
    by (metis str_includes_mid)
qed

lemma ensureCacheDirectory_present:
  "cacheDir fs = Some es \<Longrightarrow> ensureCacheDirectory fs = Inr fs"
  by (simp add: ensureCacheDirectory_def existsSync_def)

lemma ensureCacheDirectory_absent:
  "cacheDir fs = None \<Longrightarrow>
   ensureCacheDirectory fs = (if readOnly fs then Inl EROFS else Inr (fs\<lparr>cacheDir := Some []\<rparr>))"
  by (simp add: ensureCacheDirectory_def existsSync_def mkdirSync_def)

lemma ensureCacheDirectory_Inr:
  "ensureCacheDirectory (files w) = Inr fs1 \<Longrightarrow>
   readdirSync fs1 = Inr (cacheListing w) \<and> readOnly fs1 = readOnly (files w)
   \<and> (\<exists>es. cacheDir fs1 = Some es \<and> map d_name es = cacheListing w)"
  by (cases "cacheDir (files w)")
     (auto simp: ensureCacheDirectory_absent ensureCacheDirectory_present readdirSync_def
        cacheListing_def split: if_splits)

lemma ensureCacheDirectory_Inl:
  "ensureCacheDirectory (files w) = Inl err \<Longrightarrow> readOnly (files w) \<and> cacheListing w = []"
  by (cases "cacheDir (files w)")
     (auto simp: ensureCacheDirectory_absent ensureCacheDirectory_present cacheListing_def
        split: if_splits)

lemma synthesize_files: "files (snd (synthesize e rq w)) = files w"
  by (simp add: synthesize_def console_error_def split: option.splits sum.splits)

lemma find_name_None:
  "f \<notin> set (map d_name es) \<Longrightarrow> find (\<lambda>x. d_name x = f) es = None"
  by (induction es) auto

lemma writeFileSync_fresh:
  "cacheDir fs = Some es \<Longrightarrow> f \<notin> set (map d_name es) \<Longrightarrow>
   writeFileSync fs now f content =
     (if readOnly fs then Inl EROFS
      else Inr (fs\<lparr>cacheDir := Some (es @ [\<lparr>d_name = f, d_mtime = now, d_kind = RegularFile,
                                             d_data = content\<rparr>])\<rparr>))"
  by (simp add: writeFileSync_def find_name_None)

lemma existingFileOf_None_filename:
  "existingFileOf e rq names = None \<Longrightarrow> filenameOf e now rq \<notin> set names"
  using filenameOf_includes [of e now rq] by (auto simp: existingFileOf_def find_None_iff)

text \<open>The three ways the outer \<^verbatim>\<open>try\<close> block of \<^verbatim>\<open>generateTTS\<close> ends.\<close>

lemma generateTTS_try_hit:
  assumes "existingFileOf e rq (cacheListing w) = Some f"
  shows "generateTTS_try e now today random rq w =
     (Inr \<lparr>audioUrl = audioUrlOf e f,
           res_characterCount = characterCountOf rq,
           estimatedCostUSD = 0,
           res_voiceUsed = voiceNameOf rq,
           cacheHit = True,
           res_duration = Math_ceil (real (characterCountOf rq) / 10)\<rparr>, w)"
proof -
  from assms have "cacheListing w \<noteq> []" by (auto simp: existingFileOf_def)
  then obtain es where es: "cacheDir (files w) = Some es"
    by (auto simp: cacheListing_def split: option.splits)
  then have "ensureCacheDirectory (files w) = Inr (files w)"
    by (rule ensureCacheDirectory_present)
  moreover have "readdirSync (files w) = Inr (cacheListing w)"
    using es by (simp add: readdirSync_def cacheListing_def)
  ultimately show ?thesis
    using assms by (simp add: generateTTS_try_def)
qed

lemma generateTTS_try_miss:
  assumes "existingFileOf e rq (cacheListing w) = None" and "\<not> readOnly (files w)"
  shows "\<exists>w'. generateTTS_try e now today random rq w =
     (Inr \<lparr>audioUrl = audioUrlOf e (filenameOf e now rq),
           res_characterCount = resp_characterCount (fst (synthesize e rq w)),
           estimatedCostUSD = calculateCostUSD (characterCountOf rq) (voiceNameOf rq),
           res_voiceUsed = resp_voiceUsed (fst (synthesize e rq w)),
           cacheHit = False,
           res_duration = resp_duration (fst (synthesize e rq w))\<rparr>, w')"
proof -
  obtain fs1 where fs1: "ensureCacheDirectory (files w) = Inr fs1"
    using assms(2) ensureCacheDirectory_Inl by (cases "ensureCacheDirectory (files w)") auto
  from ensureCacheDirectory_Inr [OF fs1] obtain es where
    rd: "readdirSync fs1 = Inr (cacheListing w)" and ro: "\<not> readOnly fs1"
    and es: "cacheDir fs1 = Some es" "map d_name es = cacheListing w"
    using assms(2) by auto
  let ?w1 = "w\<lparr>files := fs1\<rparr>"
  obtain resp w2 where sy: "synthesize e rq ?w1 = (resp, w2)"
    by (cases "synthesize e rq ?w1")
  have resp: "resp = fst (synthesize e rq w)"
    using sy by (auto simp: synthesize_def split: option.splits sum.splits)
  have f2: "files w2 = fs1"
    using synthesize_files [of e rq ?w1] sy by simp
  have fresh: "filenameOf e now rq \<notin> set (map d_name es)"
    using existingFileOf_None_filename [OF assms(1)] es(2) by simp
  have wr: "writeFileSync (files w2) (int now) (filenameOf e now rq) (resp_audioContent resp)
      = Inr (fs1\<lparr>cacheDir := Some (es @ [\<lparr>d_name = filenameOf e now rq, d_mtime = int now,
               d_kind = RegularFile, d_data = resp_audioContent resp\<rparr>])\<rparr>)"
    unfolding f2 using writeFileSync_fresh [OF es(1) fresh] ro by simp
  show ?thesis
    unfolding generateTTS_try_def
    by (simp add: fs1 rd assms(1) sy wr [unfolded resp] resp Let_def)
qed

lemma generateTTS_try_miss_readOnly:
  assumes "existingFileOf e rq (cacheListing w) = None" and "readOnly (files w)"
  shows "\<exists>w'. generateTTS_try e now today random rq w = (Inl EROFS, w')"
proof (cases "ensureCacheDirectory (files w)")
  case (Inl err)
  then have "err = EROFS"
    by (cases "cacheDir (files w)")
       (auto simp: ensureCacheDirectory_absent ensureCacheDirectory_present split: if_splits)
  with Inl show ?thesis by (simp add: generateTTS_try_def)
next
  case (Inr fs1)
  from ensureCacheDirectory_Inr [OF Inr] have
    rd: "readdirSync fs1 = Inr (cacheListing w)" and ro: "readOnly fs1"
    using assms(2) by auto
  let ?w1 = "w\<lparr>files := fs1\<rparr>"
  obtain resp w2 where sy: "synthesize e rq ?w1 = (resp, w2)"
    by (cases "synthesize e rq ?w1")
  have f2: "files w2 = fs1"
    using synthesize_files [of e rq ?w1] sy by simp
  have wr: "writeFileSync (files w2) (int now) (filenameOf e now rq) (resp_audioContent resp)
      = Inl EROFS"
    unfolding f2 using ro by (simp add: writeFileSync_def)
  show ?thesis
    unfolding generateTTS_try_def
    by (simp add: Inr rd assms(1) sy wr Let_def)
qed


lemma generateTTS_of_try:
  "generateTTS_try e now today random rq w = (Inr result, w') \<Longrightarrow>
   generateTTS e now today random rq w = (Inr result, w')"
  "generateTTS_try e now today random rq w = (Inl message, w') \<Longrightarrow>
   fst (generateTTS e now today random rq w) = Inl (''TTS generation failed: '' @ message)"
  by (simp_all add: generateTTS_def)

text \<open>
  C1 (cache hit and miss). When a name of the cache directory contains both the 12-character
  hash fragment and the voice tag of the request, \<^verbatim>\<open>generateTTS\<close> returns a result with
  \<open>cacheHit = true\<close> and \<open>estimatedCostUSD = 0\<close>. When no name does and the cache
  directory can be written, it returns a result with \<open>cacheHit = false\<close> and the cost that
  \<^const>\<open>calculateCostUSD\<close> computes for the request's character count and resolved voice.
  Whatever the state of the file system, every result that \<^verbatim>\<open>generateTTS\<close> returns has
  \<open>cacheHit\<close> exactly when such a name exists, and the cost that goes with it. (When the
  write fails, \<^verbatim>\<open>generateTTS\<close> throws and returns no result.)
\<close>

theorem generateTTS_cache_hit_and_miss:
  "((\<exists>file\<in>set (cacheListing w).
       str_includes file (hashPartOf e rq) \<and> str_includes file (voicePartOf rq)) \<longrightarrow>
      (\<exists>result. fst (generateTTS e now today random rq w) = Inr result
         \<and> cacheHit result \<and> estimatedCostUSD result = 0))
   \<and> ((\<forall>file\<in>set (cacheListing w).
         \<not> (str_includes file (hashPartOf e rq) \<and> str_includes file (voicePartOf rq)))
       \<and> \<not> readOnly (files w) \<longrightarrow>
      (\<exists>result. fst (generateTTS e now today random rq w) = Inr result
         \<and> \<not> cacheHit result
         \<and> estimatedCostUSD result = calculateCostUSD (characterCountOf rq) (voiceNameOf rq)))
   \<and> (\<forall>result. fst (generateTTS e now today random rq w) = Inr result \<longrightarrow>
        (cacheHit result \<longleftrightarrow>
           (\<exists>file\<in>set (cacheListing w).
              str_includes file (hashPartOf e rq) \<and> str_includes file (voicePartOf rq)))
        \<and> estimatedCostUSD result =
            (if cacheHit result then 0
             else calculateCostUSD (characterCountOf rq) (voiceNameOf rq)))"
proof -
  let ?P = "\<lambda>file. str_includes file (hashPartOf e rq) \<and> str_includes file (voicePartOf rq)"
  let ?g = "generateTTS e now today random rq w"
  have hit: "\<exists>result. fst ?g = Inr result \<and> cacheHit result \<and> estimatedCostUSD result = 0"
    if "\<exists>file\<in>set (cacheListing w). ?P file"
  proof -
    from that obtain f where "existingFileOf e rq (cacheListing w) = Some f"
      unfolding existingFileOf_def by (cases "find ?P (cacheListing w)") (auto simp: find_None_iff)
    from generateTTS_of_try(1) [OF generateTTS_try_hit [OF this]] show ?thesis by simp
  qed
  have none: "existingFileOf e rq (cacheListing w) = None"
    if "\<forall>file\<in>set (cacheListing w). \<not> ?P file"
    using that unfolding existingFileOf_def by (simp add: find_None_iff)
  have miss: "\<exists>result. fst ?g = Inr result \<and> \<not> cacheHit result
      \<and> estimatedCostUSD result = calculateCostUSD (characterCountOf rq) (voiceNameOf rq)"
    if "\<forall>file\<in>set (cacheListing w). \<not> ?P file" and "\<not> readOnly (files w)"
  proof -
    from generateTTS_try_miss [OF none [OF that(1)] that(2)] obtain w' r where
      "generateTTS_try e now today random rq w = (Inr r, w')" "\<not> cacheHit r"
      "estimatedCostUSD r = calculateCostUSD (characterCountOf rq) (voiceNameOf rq)"
      by fastforce
    with generateTTS_of_try(1) show ?thesis by fastforce
  qed
  have ret: "(cacheHit result \<longleftrightarrow> (\<exists>file\<in>set (cacheListing w). ?P file))
      \<and> estimatedCostUSD result =
         (if cacheHit result then 0
          else calculateCostUSD (characterCountOf rq) (voiceNameOf rq))"
    if r: "fst ?g = Inr result" for result
  proof (cases "\<exists>file\<in>set (cacheListing w). ?P file")
    case True
    from hit [OF True] r show ?thesis using True by auto
  next
    case False
    then have all: "\<forall>file\<in>set (cacheListing w). \<not> ?P file" by blast
    show ?thesis
    proof (cases "readOnly (files w)")
      case True
      from generateTTS_try_miss_readOnly [OF none [OF all] True] obtain w' where
        "generateTTS_try e now today random rq w = (Inl EROFS, w')" by blast
      from generateTTS_of_try(2) [OF this] r show ?thesis by simp
    next
      case ro: False
      from miss [OF all ro] r show ?thesis using False by auto
    qed
  qed
  from hit miss ret show ?thesis by blast
qed

theorem generateTTS_cache_hit_and_miss_witness:
  "\<forall>stringify sha256 sine.
     (\<exists>result. fst (generateTTS (env_of stringify sha256 sine None) 1700000000000 ''2023-11-14''
                   (1 / 2) hello_world (world_of [])) = Inr result
        \<and> \<not> cacheHit result
        \<and> estimatedCostUSD result = calculateCostUSD 11 ''en-US-Standard-C'')
     \<and> (\<exists>result. fst (generateTTS (env_of stringify sha256 sine None) 1700000000000 ''2023-11-14''
                   (1 / 2) hello_world
                   (world_of [\<lparr>d_name = filenameOf (env_of stringify sha256 sine None)
                                          1600000000000 hello_world,
                                d_mtime = 1600000000000, d_kind = RegularFile, d_data = []\<rparr>]))
                 = Inr result
        \<and> cacheHit result \<and> estimatedCostUSD result = 0)"
proof (intro allI conjI)
  fix stringify sha256 sine
  let ?e = "env_of stringify sha256 sine None"
  have cc: "characterCountOf hello_world = 11" "voiceNameOf hello_world = ''en-US-Standard-C''"
    by (simp_all add: characterCountOf_def hello_world_def js_def voiceNameOf_def
        requestedVoice_def resolveVoice_def VOICE_MAP_def)
  have "cacheListing (world_of []) = []" "\<not> readOnly (files (world_of []))"
    by (simp_all add: cacheListing_def world_of_def)
  with generateTTS_cache_hit_and_miss [of "world_of []" ?e hello_world 1700000000000
      "''2023-11-14''" "1 / 2"]
  show "\<exists>result. fst (generateTTS ?e 1700000000000 ''2023-11-14'' (1 / 2) hello_world
                   (world_of [])) = Inr result
        \<and> \<not> cacheHit result
        \<and> estimatedCostUSD result = calculateCostUSD 11 ''en-US-Standard-C''"
    by (simp add: cc)
  let ?f = "filenameOf ?e 1600000000000 hello_world"
  let ?w = "world_of [\<lparr>d_name = ?f, d_mtime = 1600000000000, d_kind = RegularFile, d_data = []\<rparr>]"
  have l: "cacheListing ?w = [?f]"
    by (simp add: cacheListing_def world_of_def)
  have "\<exists>file\<in>set (cacheListing ?w).
      str_includes file (hashPartOf ?e hello_world) \<and> str_includes file (voicePartOf hello_world)"
    unfolding l using filenameOf_includes [of ?e 1600000000000 hello_world] by simp
  with generateTTS_cache_hit_and_miss [of ?w ?e hello_world 1700000000000
      "''2023-11-14''" "1 / 2"]
  show "\<exists>result. fst (generateTTS ?e 1700000000000 ''2023-11-14'' (1 / 2) hello_world ?w)
                 = Inr result
        \<and> cacheHit result \<and> estimatedCostUSD result = 0"
    by blast
qed

subsection \<open>Provider errors\<close>

lemma synthesize_world:
  "snd (synthesize e rq (w\<lparr>files := fs\<rparr>)) = (snd (synthesize e rq w))\<lparr>files := fs\<rparr>"
  "fst (synthesize e rq (w\<lparr>files := fs\<rparr>)) = fst (synthesize e rq w)"
  by (simp_all add: synthesize_def console_error_def split: option.splits sum.splits)

lemma generateTTS_try_miss_world:
  assumes "existingFileOf e rq (cacheListing w) = None" and "\<not> readOnly (files w)"
  shows "generateTTS_try e now today random rq w =
     (let resp = fst (synthesize e rq w);
          fs3 = (files w)\<lparr>cacheDir := Some ((case cacheDir (files w) of None \<Rightarrow> [] | Some es \<Rightarrow> es)
                  @ [\<lparr>d_name = filenameOf e now rq, d_mtime = int now, d_kind = RegularFile,
                      d_data = resp_audioContent resp\<rparr>])\<rparr>;
          w3 = track today (userIdOf rq) (characterCountOf rq) (voiceNameOf rq)
                 ((snd (synthesize e rq w))\<lparr>files := fs3\<rparr>)
      in (Inr \<lparr>audioUrl = audioUrlOf e (filenameOf e now rq),
               res_characterCount = resp_characterCount resp,
               estimatedCostUSD = calculateCostUSD (characterCountOf rq) (voiceNameOf rq),
               res_voiceUsed = resp_voiceUsed resp,
               cacheHit = False,
               res_duration = resp_duration resp\<rparr>,
          if random < 1 / 10 then cleanCache (int now) w3 else w3))"
proof -
  obtain fs1 where fs1: "ensureCacheDirectory (files w) = Inr fs1"
    using assms(2) ensureCacheDirectory_Inl by (cases "ensureCacheDirectory (files w)") auto
  from ensureCacheDirectory_Inr [OF fs1] obtain es where
    rd: "readdirSync fs1 = Inr (cacheListing w)" and ro: "\<not> readOnly fs1"
    and es: "cacheDir fs1 = Some es" "map d_name es = cacheListing w"
    using assms(2) by auto
  have es_eq: "(case cacheDir (files w) of None \<Rightarrow> [] | Some es \<Rightarrow> es) = es"
    and fs1_eq: "fs1 = (files w)\<lparr>cacheDir := Some es\<rparr>"
    using fs1 es(1) assms(2)
    by (cases "cacheDir (files w)";
        auto simp: ensureCacheDirectory_absent ensureCacheDirectory_present)+
  let ?w1 = "w\<lparr>files := fs1\<rparr>"
  let ?resp = "fst (synthesize e rq w)"
  have sy: "synthesize e rq ?w1 = (?resp, (snd (synthesize e rq w))\<lparr>files := fs1\<rparr>)"
    by (simp add: prod_eq_iff synthesize_world)
  have fresh: "filenameOf e now rq \<notin> set (map d_name es)"
    using existingFileOf_None_filename [OF assms(1)] es(2) by simp
  have wr: "writeFileSync fs1 (int now) (filenameOf e now rq) (resp_audioContent ?resp)
      = Inr (fs1\<lparr>cacheDir := Some (es @ [\<lparr>d_name = filenameOf e now rq, d_mtime = int now,
               d_kind = RegularFile, d_data = resp_audioContent ?resp\<rparr>])\<rparr>)"
    using writeFileSync_fresh [OF es(1) fresh] ro by simp
  show ?thesis
    unfolding generateTTS_try_def
    by (simp add: fs1 rd assms(1) sy wr Let_def es_eq) (simp add: fs1_eq)
qed


lemma console_track: "console (track today u n v w) = console w"
  by (simp add: track_def)

lemma console_cleanCache: "\<exists>extra. console (cleanCache now w) = console w @ extra"
  by (cases "cleanCache_try now (files w)")
     (auto simp: cleanCache_def console_error_def split: option.splits)

lemma generateMockTTS_fields:
  "resp_characterCount (generateMockTTS e t v) = length t"
  "resp_voiceUsed (generateMockTTS e t v) = v"
  "resp_duration (generateMockTTS e t v) = max 1 (Math_ceil (real (length t) / 100))"
  by (simp_all add: generateMockTTS_def Let_def)

lemma synthesize_provider_throws:
  "ttsClient e = Some client \<Longrightarrow> callProvider client rq = Inl message \<Longrightarrow>
   synthesize e rq w = (generateMockTTS e (rq_text rq) (voiceNameOf rq),
                        console_error ''Google Cloud TTS API error:'' message w)"
  by (simp add: synthesize_def)

lemma generateTTS_provider_throws:
  assumes "ttsClient e = Some client" and "callProvider client rq = Inl message"
    and "existingFileOf e rq (cacheListing w) = None" and "\<not> readOnly (files w)"
  shows "\<exists>w'. generateTTS e now today random rq w =
       (Inr \<lparr>audioUrl = audioUrlOf e (filenameOf e now rq),
             res_characterCount = length (rq_text rq),
             estimatedCostUSD = calculateCostUSD (characterCountOf rq) (voiceNameOf rq),
             res_voiceUsed = voiceNameOf rq,
             cacheHit = False,
             res_duration = max 1 (Math_ceil (real (length (rq_text rq)) / 100))\<rparr>, w')
     \<and> (''Google Cloud TTS API error: '' @ message) \<in> set (console w')"
proof -
  let ?w3 = "track today (userIdOf rq) (characterCountOf rq) (voiceNameOf rq)
      ((console_error ''Google Cloud TTS API error:'' message w)
         \<lparr>files := (files w)\<lparr>cacheDir := Some ((case cacheDir (files w) of None \<Rightarrow> [] | Some es \<Rightarrow> es)
            @ [\<lparr>d_name = filenameOf e now rq, d_mtime = int now, d_kind = RegularFile,
                d_data = resp_audioContent (generateMockTTS e (rq_text rq) (voiceNameOf rq))\<rparr>])\<rparr>\<rparr>)"
  let ?w' = "if random < 1 / 10 then cleanCache (int now) ?w3 else ?w3"
  have c3: "console ?w3 = console w @ [''Google Cloud TTS API error: '' @ message]"
    by (simp add: console_track console_error_def)
  have "(''Google Cloud TTS API error: '' @ message) \<in> set (console ?w')"
    using console_cleanCache [of "int now" ?w3] c3 by auto
  moreover have "generateTTS_try e now today random rq w =
       (Inr \<lparr>audioUrl = audioUrlOf e (filenameOf e now rq),
             res_characterCount = length (rq_text rq),
             estimatedCostUSD = calculateCostUSD (characterCountOf rq) (voiceNameOf rq),
             res_voiceUsed = voiceNameOf rq,
             cacheHit = False,
             res_duration = max 1 (Math_ceil (real (length (rq_text rq)) / 100))\<rparr>, ?w')"
    unfolding generateTTS_try_miss_world [OF assms(3,4)]
      synthesize_provider_throws [OF assms(1,2)]
    by (simp add: generateMockTTS_fields Let_def)
  ultimately show ?thesis
    using generateTTS_of_try(1) by blast
qed

lemma generateTTS_throws_readOnly:
  assumes "fst (generateTTS e now today random rq w) = Inl m"
  shows "readOnly (files w)"
proof (rule ccontr)
  assume ro: "\<not> readOnly (files w)"
  show False
  proof (cases "existingFileOf e rq (cacheListing w)")
    case None
    from generateTTS_try_miss [OF None ro] obtain r w' where
      "generateTTS_try e now today random rq w = (Inr r, w')" by blast
    from generateTTS_of_try(1) [OF this] assms show False by simp
  next
    case (Some f)
    from generateTTS_of_try(1) [OF generateTTS_try_hit [OF Some]] assms show False by simp
  qed
qed

text \<open>
  C5 (provider errors), as the code has it. The \<^verbatim>\<open>catch (googleError)\<close> clause of
  \<^verbatim>\<open>generateTTS\<close> takes every error of a provider call, whatever its message: the error is
  logged, the local generator's audio replaces the provider's, and with a writable cache
  directory \<^verbatim>\<open>generateTTS\<close> returns an ordinary cache-miss result, to which the route
  answers 200. An error that \<^verbatim>\<open>generateTTS\<close> does throw comes from the file system, never
  from the provider.
\<close>

theorem provider_errors_fall_back:
  "(ttsClient e = Some client \<and> callProvider client rq = Inl message
      \<and> existingFileOf e rq (cacheListing w) = None \<and> \<not> readOnly (files w) \<longrightarrow>
    (\<exists>result w'. generateTTS e now today random rq w = (Inr result, w')
       \<and> generate_status (Inr result) = 200
       \<and> \<not> cacheHit result
       \<and> res_characterCount result = length (rq_text rq)
       \<and> res_duration result = max 1 (Math_ceil (real (length (rq_text rq)) / 100))
       \<and> (''Google Cloud TTS API error: '' @ message) \<in> set (console w')))
   \<and> (\<forall>m. fst (generateTTS e now today random rq w) = Inl m \<longrightarrow> readOnly (files w))"
proof (intro conjI impI allI)
  assume a: "ttsClient e = Some client \<and> callProvider client rq = Inl message
      \<and> existingFileOf e rq (cacheListing w) = None \<and> \<not> readOnly (files w)"
  then obtain w' where "generateTTS e now today random rq w =
       (Inr \<lparr>audioUrl = audioUrlOf e (filenameOf e now rq),
             res_characterCount = length (rq_text rq),
             estimatedCostUSD = calculateCostUSD (characterCountOf rq) (voiceNameOf rq),
             res_voiceUsed = voiceNameOf rq,
             cacheHit = False,
             res_duration = max 1 (Math_ceil (real (length (rq_text rq)) / 100))\<rparr>, w')"
    "(''Google Cloud TTS API error: '' @ message) \<in> set (console w')"
    using generateTTS_provider_throws [of e client rq message w now today random] by blast
  then show "\<exists>result w'. generateTTS e now today random rq w = (Inr result, w')
       \<and> generate_status (Inr result) = 200
       \<and> \<not> cacheHit result
       \<and> res_characterCount result = length (rq_text rq)
       \<and> res_duration result = max 1 (Math_ceil (real (length (rq_text rq)) / 100))
       \<and> (''Google Cloud TTS API error: '' @ message) \<in> set (console w')"
    by (auto simp: generate_status_def)
next
  fix m assume "fst (generateTTS e now today random rq w) = Inl m"
  then show "readOnly (files w)" by (rule generateTTS_throws_readOnly)
qed

lemma hello_world_quota:
  "callProvider (\<lambda>r. Inl ''quota exceeded'') hello_world = Inl ''quota exceeded''"
  by (simp add: callProvider_def hello_world_def js_def unitBytes_def isHighSurrogate_def)

lemma empty_cache_miss:
  "existingFileOf e rq (cacheListing (world_of [])) = None" "\<not> readOnly (files (world_of []))"
  by (simp_all add: existingFileOf_def cacheListing_def world_of_def)

theorem provider_errors_fall_back_witness:
  "\<forall>stringify sha256 sine.
     \<exists>result w'. generateTTS
         (env_of stringify sha256 sine (Some (\<lambda>r. Inl ''quota exceeded'')))
         1700000000000 ''2023-11-14'' (1 / 2) hello_world (world_of []) = (Inr result, w')
       \<and> generate_status (Inr result) = 200
       \<and> \<not> cacheHit result
       \<and> res_characterCount result = 11
       \<and> res_duration result = 1
       \<and> ''Google Cloud TTS API error: quota exceeded'' \<in> set (console w')"
proof (intro allI)
  fix stringify sha256 sine
  let ?e = "env_of stringify sha256 sine (Some (\<lambda>r. Inl ''quota exceeded''))"
  have c: "ttsClient ?e = Some (\<lambda>r. Inl ''quota exceeded'')"
    by (simp add: env_of_def)
  have l: "length (rq_text hello_world) = 11"
    by (simp add: hello_world_def js_def)
  from provider_errors_fall_back [of ?e "\<lambda>r. Inl ''quota exceeded''" hello_world
      "''quota exceeded''" "world_of []" 1700000000000 "''2023-11-14''" "1 / 2"]
    c hello_world_quota empty_cache_miss
  show "\<exists>result w'. generateTTS ?e 1700000000000 ''2023-11-14'' (1 / 2) hello_world (world_of [])
         = (Inr result, w')
       \<and> generate_status (Inr result) = 200
       \<and> \<not> cacheHit result
       \<and> res_characterCount result = 11
       \<and> res_duration result = 1
       \<and> ''Google Cloud TTS API error: quota exceeded'' \<in> set (console w')"
    by (simp add: l Math_ceil_def)
qed

text \<open>
  A provider that throws \<^verbatim>\<open>quota exceeded\<close> on an empty cache: the route answers 200, not
  the 429 it keeps for a thrown message that contains \<^verbatim>\<open>quota\<close>.
\<close>

theorem quota_error_not_propagated:
  "\<forall>stringify sha256 sine.
     generate_status (fst (generateTTS
         (env_of stringify sha256 sine (Some (\<lambda>r. Inl ''quota exceeded'')))
         1700000000000 ''2023-11-14'' (1 / 2) hello_world (world_of []))) = 200
   \<and> generate_status (Inl (''TTS generation failed: '' @ ''quota exceeded'')) = 429"
proof (intro allI conjI)
  fix stringify sha256 sine
  let ?e = "env_of stringify sha256 sine (Some (\<lambda>r. Inl ''quota exceeded''))"
  have c: "ttsClient ?e = Some (\<lambda>r. Inl ''quota exceeded'')"
    by (simp add: env_of_def)
  from generateTTS_provider_throws [OF c hello_world_quota empty_cache_miss,
      of 1700000000000 "''2023-11-14''" "1 / 2"]
  show "generate_status (fst (generateTTS ?e 1700000000000 ''2023-11-14'' (1 / 2) hello_world
      (world_of []))) = 200"
    by (auto simp: generate_status_def)
  show "generate_status (Inl (''TTS generation failed: '' @ ''quota exceeded'')) = 429"
    by (simp add: generate_status_def)
qed

subsection \<open>Cache fingerprint\<close>

lemma js_inj: "js a = js b \<Longrightarrow> a = b"
proof -
  have "inj (\<lambda>c::char. (of_nat (of_char c) :: 16 word))"
  proof (rule injI)
    fix x y :: char
    assume "(of_nat (of_char x) :: 16 word) = of_nat (of_char y)"
    then have "unat (of_nat (of_char x) :: 16 word) = unat (of_nat (of_char y) :: 16 word)"
      by simp
    moreover have "(of_char c :: nat) < 2 ^ 16" for c :: char
    proof -
      have "(of_char c :: nat) mod 256 < 256" by simp
      then have "(of_char c :: nat) < 256" by (simp only: of_char_mod_256)
      then show ?thesis by (rule less_trans) simp
    qed
    ultimately have "(of_char x :: nat) = of_char y"
      by (simp add: unat_of_nat)
    then show "x = y" by simp
  qed
  then show "js a = js b \<Longrightarrow> a = b"
    unfolding js_def by (simp add: inj_map_eq_map)
qed

lemma cacheKeyContent_eq:
  "cacheKeyContent t v c = cacheKeyContent t' v' c' \<longleftrightarrow> t = t' \<and> v = v' \<and> c = c'"
  using js_inj by (auto simp: cacheKeyContent_def)


lemma cacheKeyOf_content:
  "cacheKeyOf e rq =
     sha256_hex e (JSON_stringify e
       (cacheKeyContent (rq_text rq) (voiceNameOf rq) (audioConfigOf rq)))"
  by (simp add: cacheKeyOf_def generateCacheKey_def)

lemma same_resolved_request:
  assumes "rq_text a = rq_text b" and "voiceNameOf a = voiceNameOf b"
    and "audioConfigOf a = audioConfigOf b"
  shows "cacheKeyOf e a = cacheKeyOf e b" and "existingFileOf e a names = existingFileOf e b names"
proof -
  show k: "cacheKeyOf e a = cacheKeyOf e b"
    using assms by (simp add: cacheKeyOf_content)
  show "existingFileOf e a names = existingFileOf e b names"
    using k assms(2) by (simp add: existingFileOf_def hashPartOf_def voicePartOf_def)
qed

text \<open>
  C2 (cache fingerprint), as the code has it. The fingerprint is the digest of the serialised
  object \<^verbatim>\<open>{ text, voiceName, audioConfig }\<close>, where \<^verbatim>\<open>voiceName\<close> is the provider voice id
  that the requested voice resolves to. Two requests are hashed from the same object exactly
  when they agree on the text, the resolved voice id and the audio configuration; such
  requests have the same fingerprint and the same cache lookup, whatever voice names they
  were written with. When the serialisation and the digest do not collide on the objects of
  two requests, their fingerprints are equal exactly when text, resolved voice id and audio
  configuration are.
\<close>

theorem cacheKey_of_resolved_request:
  "cacheKeyOf e a =
     sha256_hex e (JSON_stringify e
       (cacheKeyContent (rq_text a) (voiceNameOf a) (audioConfigOf a)))
   \<and> (cacheKeyContent (rq_text a) (voiceNameOf a) (audioConfigOf a)
        = cacheKeyContent (rq_text b) (voiceNameOf b) (audioConfigOf b)
      \<longleftrightarrow> rq_text a = rq_text b \<and> voiceNameOf a = voiceNameOf b
          \<and> audioConfigOf a = audioConfigOf b)
   \<and> (rq_text a = rq_text b \<and> voiceNameOf a = voiceNameOf b
        \<and> audioConfigOf a = audioConfigOf b \<longrightarrow>
      cacheKeyOf e a = cacheKeyOf e b
      \<and> existingFileOf e a names = existingFileOf e b names)
   \<and> ((sha256_hex e (JSON_stringify e
           (cacheKeyContent (rq_text a) (voiceNameOf a) (audioConfigOf a)))
        = sha256_hex e (JSON_stringify e
           (cacheKeyContent (rq_text b) (voiceNameOf b) (audioConfigOf b)))
        \<longrightarrow> cacheKeyContent (rq_text a) (voiceNameOf a) (audioConfigOf a)
            = cacheKeyContent (rq_text b) (voiceNameOf b) (audioConfigOf b)) \<longrightarrow>
      (cacheKeyOf e a = cacheKeyOf e b
       \<longleftrightarrow> rq_text a = rq_text b \<and> voiceNameOf a = voiceNameOf b
           \<and> audioConfigOf a = audioConfigOf b))"
proof (intro conjI impI)
  show "cacheKeyOf e a =
     sha256_hex e (JSON_stringify e
       (cacheKeyContent (rq_text a) (voiceNameOf a) (audioConfigOf a)))"
    by (rule cacheKeyOf_content)
  show c: "cacheKeyContent (rq_text a) (voiceNameOf a) (audioConfigOf a)
        = cacheKeyContent (rq_text b) (voiceNameOf b) (audioConfigOf b)
      \<longleftrightarrow> rq_text a = rq_text b \<and> voiceNameOf a = voiceNameOf b
          \<and> audioConfigOf a = audioConfigOf b"
    by (rule cacheKeyContent_eq)
  {
    assume "rq_text a = rq_text b \<and> voiceNameOf a = voiceNameOf b
        \<and> audioConfigOf a = audioConfigOf b"
    then show "cacheKeyOf e a = cacheKeyOf e b"
      and "existingFileOf e a names = existingFileOf e b names"
      by (blast intro: same_resolved_request)+
  }
  assume "sha256_hex e (JSON_stringify e
           (cacheKeyContent (rq_text a) (voiceNameOf a) (audioConfigOf a)))
        = sha256_hex e (JSON_stringify e
           (cacheKeyContent (rq_text b) (voiceNameOf b) (audioConfigOf b)))
        \<longrightarrow> cacheKeyContent (rq_text a) (voiceNameOf a) (audioConfigOf a)
            = cacheKeyContent (rq_text b) (voiceNameOf b) (audioConfigOf b)"
  then show "cacheKeyOf e a = cacheKeyOf e b
       \<longleftrightarrow> rq_text a = rq_text b \<and> voiceNameOf a = voiceNameOf b
           \<and> audioConfigOf a = audioConfigOf b"
    unfolding cacheKeyOf_content c [symmetric] by auto
qed

lemma hello_world_voices:
  "voiceNameOf hello_world = ''en-US-Standard-C''"
  "voiceNameOf (hello_world\<lparr>rq_voiceName := Some ''en-US-Standard-C''\<rparr>) = ''en-US-Standard-C''"
  "voiceNameOf (hello_world\<lparr>rq_voiceName := Some ''male''\<rparr>) = ''en-US-Standard-B''"
  by (simp_all add: voiceNameOf_def requestedVoice_def resolveVoice_def VOICE_MAP_def
      hello_world_def)

theorem cacheKey_of_resolved_request_witness:
  "\<forall>e. voiceNameOf hello_world = voiceNameOf (hello_world\<lparr>rq_voiceName := Some ''en-US-Standard-C''\<rparr>)
     \<and> cacheKeyContent (rq_text hello_world) (voiceNameOf hello_world) (audioConfigOf hello_world)
        = cacheKeyContent (rq_text (hello_world\<lparr>rq_voiceName := Some ''en-US-Standard-C''\<rparr>))
            (voiceNameOf (hello_world\<lparr>rq_voiceName := Some ''en-US-Standard-C''\<rparr>))
            (audioConfigOf (hello_world\<lparr>rq_voiceName := Some ''en-US-Standard-C''\<rparr>))
     \<and> cacheKeyOf e hello_world = cacheKeyOf e (hello_world\<lparr>rq_voiceName := Some ''en-US-Standard-C''\<rparr>)
     \<and> voiceNameOf hello_world \<noteq> voiceNameOf (hello_world\<lparr>rq_voiceName := Some ''male''\<rparr>)
     \<and> cacheKeyContent (rq_text hello_world) (voiceNameOf hello_world) (audioConfigOf hello_world)
        \<noteq> cacheKeyContent (rq_text (hello_world\<lparr>rq_voiceName := Some ''male''\<rparr>))
            (voiceNameOf (hello_world\<lparr>rq_voiceName := Some ''male''\<rparr>))
            (audioConfigOf (hello_world\<lparr>rq_voiceName := Some ''male''\<rparr>))"
proof (intro allI conjI)
  fix e
  let ?b = "hello_world\<lparr>rq_voiceName := Some ''en-US-Standard-C''\<rparr>"
  let ?c = "hello_world\<lparr>rq_voiceName := Some ''male''\<rparr>"
  show v: "voiceNameOf hello_world = voiceNameOf ?b"
    by (simp add: hello_world_voices)
  have f: "rq_text hello_world = rq_text ?b" "audioConfigOf hello_world = audioConfigOf ?b"
    by (simp_all add: audioConfigOf_def)
  with v cacheKey_of_resolved_request [of e hello_world ?b "[]"]
  show same: "cacheKeyContent (rq_text hello_world) (voiceNameOf hello_world)
        (audioConfigOf hello_world)
      = cacheKeyContent (rq_text ?b) (voiceNameOf ?b) (audioConfigOf ?b)"
    by blast
  with v f cacheKey_of_resolved_request [of e hello_world ?b "[]"]
  show "cacheKeyOf e hello_world = cacheKeyOf e ?b"
    by blast
  show n: "voiceNameOf hello_world \<noteq> voiceNameOf ?c"
    by (simp add: hello_world_voices)
  with cacheKey_of_resolved_request [of e hello_world ?c "[]"]
  show "cacheKeyContent (rq_text hello_world) (voiceNameOf hello_world) (audioConfigOf hello_world)
        \<noteq> cacheKeyContent (rq_text ?c) (voiceNameOf ?c) (audioConfigOf ?c)"
    by blast
qed

text \<open>
  Changing the voice of the request \<^verbatim>\<open>{ text: 'Hello world', voiceName: 'female' }\<close> to the
  legacy name \<^verbatim>\<open>'en-US-Standard-C'\<close> changes neither the fingerprint nor the lookup: the
  second request is served from the file that the first one wrote.
\<close>

theorem voice_alias_shares_cacheKey:
  "rq_voiceName hello_world \<noteq> rq_voiceName (hello_world\<lparr>rq_voiceName := Some ''en-US-Standard-C''\<rparr>)
   \<and> (\<forall>e. cacheKeyOf e hello_world
            = cacheKeyOf e (hello_world\<lparr>rq_voiceName := Some ''en-US-Standard-C''\<rparr>))
   \<and> (\<forall>e now. existingFileOf e (hello_world\<lparr>rq_voiceName := Some ''en-US-Standard-C''\<rparr>)
                  [filenameOf e now hello_world]
                = Some (filenameOf e now hello_world))"
proof (intro conjI allI)
  let ?b = "hello_world\<lparr>rq_voiceName := Some ''en-US-Standard-C''\<rparr>"
  show "rq_voiceName hello_world \<noteq> rq_voiceName ?b"
    by (simp add: hello_world_def)
  have eqs: "rq_text hello_world = rq_text ?b" "voiceNameOf hello_world = voiceNameOf ?b"
    "audioConfigOf hello_world = audioConfigOf ?b"
    by (simp_all add: audioConfigOf_def hello_world_voices)
  fix e
  show "cacheKeyOf e hello_world = cacheKeyOf e ?b"
    using same_resolved_request(1) [OF eqs] .
  fix now
  have "existingFileOf e hello_world [filenameOf e now hello_world]
      = Some (filenameOf e now hello_world)"
    using filenameOf_includes [of e now hello_world] by (simp add: existingFileOf_def)
  then show "existingFileOf e ?b [filenameOf e now hello_world]
      = Some (filenameOf e now hello_world)"
    using same_resolved_request(2) [OF eqs, of e] by simp
qed

subsection \<open>Conversations\<close>

lemma withPauses_Cons:
  "withPauses p (a # as) = (if as = [] then [a] else a # p # withPauses p as)"
  by (cases as) simp_all

lemma synthesizeSegment_audio:
  "fst (synthesizeSegment e s w) = segmentAudio e s"
  "files (snd (synthesizeSegment e s w)) = files w"
  "usageCache (snd (synthesizeSegment e s w)) = usageCache w"
  by (simp_all add: synthesizeSegment_def segmentAudio_def console_error_def
      split: option.splits sum.splits)

lemma segmentLoop_result:
  "segmentLoop e pause segs acc w = (acc', w') \<Longrightarrow>
   audioBuffers acc' = audioBuffers acc
       @ withPauses (generateSilenceBuffer pause) (map (segmentAudio e) segs)
   \<and> totalCharacters acc' = totalCharacters acc + sum_list (map (\<lambda>s. length (seg_text s)) segs)
   \<and> totalCost acc' = totalCost acc
       + sum_list (map (\<lambda>s. calculateCostUSD (length (seg_text s))
                                (resolveVoice (seg_voiceName s))) segs)
   \<and> totalDuration acc' = totalDuration acc
       + sum_list (map (\<lambda>s. Math_ceil (real (length (seg_text s)) / 10)) segs)
   \<and> files w' = files w \<and> usageCache w' = usageCache w"
proof (induction segs arbitrary: acc w)
  case Nil
  then show ?case by simp
next
  case (Cons s rest)
  obtain a w1 where sy: "synthesizeSegment e s w = (a, w1)"
    by (cases "synthesizeSegment e s w")
  have a: "a = segmentAudio e s" and w1: "files w1 = files w" "usageCache w1 = usageCache w"
    using synthesizeSegment_audio [of e s w] sy by simp_all
  let ?acc1 = "\<lparr>audioBuffers = (if rest \<noteq> [] then (audioBuffers acc @ [a]) @ [generateSilenceBuffer pause]
                                 else audioBuffers acc @ [a]),
            totalCharacters = totalCharacters acc + length (seg_text s),
            totalCost = totalCost acc + calculateCostUSD (length (seg_text s)) (resolveVoice (seg_voiceName s)),
            totalDuration = totalDuration acc + Math_ceil (real (length (seg_text s)) / 10)\<rparr>"
  have "segmentLoop e pause rest ?acc1 w1 = (acc', w')"
    using Cons.prems sy by (simp add: Let_def)
  from Cons.IH [OF this] show ?case
    by (simp add: a w1 withPauses_Cons)
qed


lemma conversationFilename_includes:
  "str_includes (conversationFilename e now segments) (take 12 (conversationKey e segments))"
  "str_includes (conversationFilename e now segments) ''conversation''"
proof -
  have "conversationFilename e now segments = ''conversation-'' @ take 12 (conversationKey e segments)
      @ (''-'' @ decimal now @ ''.wav'')"
    by (simp add: conversationFilename_def)
  then show "str_includes (conversationFilename e now segments)
      (take 12 (conversationKey e segments))"
    by (metis str_includes_mid)
  have "conversationFilename e now segments = [] @ ''conversation''
      @ (''-'' @ take 12 (conversationKey e segments) @ ''-'' @ decimal now @ ''.wav'')"
    by (simp add: conversationFilename_def)
  then show "str_includes (conversationFilename e now segments) ''conversation''"
    by (metis str_includes_mid)
qed

lemma existingConversation_None_filename:
  "existingConversation e segments names = None \<Longrightarrow>
   conversationFilename e now segments \<notin> set names"
  using conversationFilename_includes [of e now segments]
  by (auto simp: existingConversation_def find_None_iff)

lemma generateConversationTTS_try_hit:
  assumes "existingConversation e (conversationSegments rq) (cacheListing w) = Some f"
  shows "generateConversationTTS_try e now today random rq w =
     (Inr \<lparr>cv_audioUrl = audioUrlOf e f,
           totalCharacterCount = sum_list (map (\<lambda>s. length (seg_text s)) (conversationSegments rq)),
           cv_estimatedCostUSD = 0,
           cv_cacheHit = True,
           cv_duration = real_of_int (Math_ceil
             (real (sum_list (map (\<lambda>s. length (seg_text s)) (conversationSegments rq))) / 10)),
           cv_conversationSegments = conversationSegments rq\<rparr>, w)"
proof -
  from assms have "cacheListing w \<noteq> []" by (auto simp: existingConversation_def)
  then obtain es where es: "cacheDir (files w) = Some es"
    by (auto simp: cacheListing_def split: option.splits)
  then have "ensureCacheDirectory (files w) = Inr (files w)"
    by (rule ensureCacheDirectory_present)
  moreover have "readdirSync (files w) = Inr (cacheListing w)"
    using es by (simp add: readdirSync_def cacheListing_def)
  ultimately show ?thesis
    using assms by (simp add: generateConversationTTS_try_def Let_def)
qed

lemma generateConversationTTS_try_miss_world:
  assumes "existingConversation e (conversationSegments rq) (cacheListing w) = None"
    and "\<not> readOnly (files w)"
  shows "\<exists>w2. usageCache w2 = usageCache w \<and>
     generateConversationTTS_try e now today random rq w =
     (let segments = conversationSegments rq;
          total = sum_list (map (\<lambda>s. length (seg_text s)) segments);
          fs3 = (files w)\<lparr>cacheDir := Some (cacheEntries w
                  @ [\<lparr>d_name = conversationFilename e now segments, d_mtime = int now,
                      d_kind = RegularFile,
                      d_data = concat (withPauses (generateSilenceBuffer (pauseOf rq))
                                         (map (segmentAudio e) segments))\<rparr>])\<rparr>;
          w3 = track today (conversationUserId rq) total ''conversation'' (w2\<lparr>files := fs3\<rparr>)
      in (Inr \<lparr>cv_audioUrl = audioUrlOf e (conversationFilename e now segments),
               totalCharacterCount = total,
               cv_estimatedCostUSD =
                 sum_list (map (\<lambda>s. calculateCostUSD (length (seg_text s))
                                        (resolveVoice (seg_voiceName s))) segments),
               cv_cacheHit = False,
               cv_duration =
                 real_of_int (sum_list (map (\<lambda>s. Math_ceil (real (length (seg_text s)) / 10))
                                           segments))
                 + real_of_int (int (length segments) - 1) * pauseOf rq,
               cv_conversationSegments = segments\<rparr>,
          if random < 1 / 10 then cleanCache (int now) w3 else w3))"
proof -
  let ?segs = "conversationSegments rq"
  obtain fs1 where fs1: "ensureCacheDirectory (files w) = Inr fs1"
    using assms(2) ensureCacheDirectory_Inl by (cases "ensureCacheDirectory (files w)") auto
  from ensureCacheDirectory_Inr [OF fs1] obtain es where
    rd: "readdirSync fs1 = Inr (cacheListing w)" and ro: "\<not> readOnly fs1"
    and es: "cacheDir fs1 = Some es" "map d_name es = cacheListing w"
    using assms(2) by auto
  have es_eq: "cacheEntries w = es" and fs1_eq: "fs1 = (files w)\<lparr>cacheDir := Some es\<rparr>"
    using fs1 es(1) assms(2)
    by (cases "cacheDir (files w)";
        auto simp: ensureCacheDirectory_absent ensureCacheDirectory_present cacheEntries_def)+
  let ?w1 = "w\<lparr>files := fs1\<rparr>"
  let ?acc0 = "\<lparr>audioBuffers = [], totalCharacters = 0, totalCost = 0, totalDuration = 0\<rparr>"
  obtain acc w2 where lp: "segmentLoop e (pauseOf rq) ?segs ?acc0 ?w1 = (acc, w2)"
    by (cases "segmentLoop e (pauseOf rq) ?segs ?acc0 ?w1")
  from segmentLoop_result [OF lp] have acc:
    "audioBuffers acc = withPauses (generateSilenceBuffer (pauseOf rq)) (map (segmentAudio e) ?segs)"
    "totalCharacters acc = sum_list (map (\<lambda>s. length (seg_text s)) ?segs)"
    "totalCost acc = sum_list (map (\<lambda>s. calculateCostUSD (length (seg_text s))
                                (resolveVoice (seg_voiceName s))) ?segs)"
    "totalDuration acc = sum_list (map (\<lambda>s. Math_ceil (real (length (seg_text s)) / 10)) ?segs)"
    and w2: "files w2 = fs1" "usageCache w2 = usageCache w"
    by simp_all
  have fresh: "conversationFilename e now ?segs \<notin> set (map d_name es)"
    using existingConversation_None_filename [OF assms(1)] es(2) by simp
  have wr: "writeFileSync (files w2) (int now) (conversationFilename e now ?segs)
        (concat (audioBuffers acc))
      = Inr (fs1\<lparr>cacheDir := Some (es @ [\<lparr>d_name = conversationFilename e now ?segs,
               d_mtime = int now, d_kind = RegularFile,
               d_data = concat (audioBuffers acc)\<rparr>])\<rparr>)"
    unfolding w2 using writeFileSync_fresh [OF es(1) fresh] ro by simp
  have "generateConversationTTS_try e now today random rq w =
     (let segments = conversationSegments rq;
          total = sum_list (map (\<lambda>s. length (seg_text s)) segments);
          fs3 = (files w)\<lparr>cacheDir := Some (cacheEntries w
                  @ [\<lparr>d_name = conversationFilename e now segments, d_mtime = int now,
                      d_kind = RegularFile,
                      d_data = concat (withPauses (generateSilenceBuffer (pauseOf rq))
                                         (map (segmentAudio e) segments))\<rparr>])\<rparr>;
          w3 = track today (conversationUserId rq) total ''conversation'' (w2\<lparr>files := fs3\<rparr>)
      in (Inr \<lparr>cv_audioUrl = audioUrlOf e (conversationFilename e now segments),
               totalCharacterCount = total,
               cv_estimatedCostUSD =
                 sum_list (map (\<lambda>s. calculateCostUSD (length (seg_text s))
                                        (resolveVoice (seg_voiceName s))) segments),
               cv_cacheHit = False,
               cv_duration =
                 real_of_int (sum_list (map (\<lambda>s. Math_ceil (real (length (seg_text s)) / 10))
                                           segments))
                 + real_of_int (int (length segments) - 1) * pauseOf rq,
               cv_conversationSegments = segments\<rparr>,
          if random < 1 / 10 then cleanCache (int now) w3 else w3))"
    unfolding generateConversationTTS_try_def
    by (simp add: fs1 rd assms(1) lp wr Let_def es_eq) (simp add: fs1_eq acc)
  with w2(2) show ?thesis by blast
qed

lemma generateConversationTTS_of_try:
  "generateConversationTTS_try e now today random rq w = (Inr result, w') \<Longrightarrow>
   generateConversationTTS e now today random rq w = (Inr result, w')"
  by (simp add: generateConversationTTS_def)


lemma conversation_miss_result:
  assumes "existingConversation e (conversationSegments rq) (cacheListing w) = None"
    and "\<not> readOnly (files w)"
  shows "\<exists>w'. generateConversationTTS e now today random rq w =
     (Inr \<lparr>cv_audioUrl = audioUrlOf e (conversationFilename e now (conversationSegments rq)),
           totalCharacterCount = sum_list (map (\<lambda>s. length (seg_text s)) (conversationSegments rq)),
           cv_estimatedCostUSD =
             sum_list (map (\<lambda>s. calculateCostUSD (length (seg_text s))
                                    (resolveVoice (seg_voiceName s))) (conversationSegments rq)),
           cv_cacheHit = False,
           cv_duration =
             real_of_int (sum_list (map (\<lambda>s. Math_ceil (real (length (seg_text s)) / 10))
                                       (conversationSegments rq)))
             + real_of_int (int (length (conversationSegments rq)) - 1) * pauseOf rq,
           cv_conversationSegments = conversationSegments rq\<rparr>, w')"
proof -
  from generateConversationTTS_try_miss_world [OF assms, of now today random]
  obtain w2 where "\<exists>w'. generateConversationTTS_try e now today random rq w =
     (Inr \<lparr>cv_audioUrl = audioUrlOf e (conversationFilename e now (conversationSegments rq)),
           totalCharacterCount = sum_list (map (\<lambda>s. length (seg_text s)) (conversationSegments rq)),
           cv_estimatedCostUSD =
             sum_list (map (\<lambda>s. calculateCostUSD (length (seg_text s))
                                    (resolveVoice (seg_voiceName s))) (conversationSegments rq)),
           cv_cacheHit = False,
           cv_duration =
             real_of_int (sum_list (map (\<lambda>s. Math_ceil (real (length (seg_text s)) / 10))
                                       (conversationSegments rq)))
             + real_of_int (int (length (conversationSegments rq)) - 1) * pauseOf rq,
           cv_conversationSegments = conversationSegments rq\<rparr>, w')"
    by (auto simp: Let_def)
  then show ?thesis
    using generateConversationTTS_of_try by blast
qed

text \<open>
  C4 (conversation cost), as the code has it. A conversation that misses the cache, with a
  writable cache directory, returns as total cost the sum over the segments of
  \<^const>\<open>calculateCostUSD\<close> at the segment's length and the provider voice that the segment's
  voice resolves to, each term already rounded to cents; the total character count is the
  sum of the segments' lengths.
\<close>

theorem conversation_cost_is_sum:
  "existingConversation e (conversationSegments rq) (cacheListing w) = None
     \<and> \<not> readOnly (files w) \<longrightarrow>
   (\<exists>result w'. generateConversationTTS e now today random rq w = (Inr result, w')
      \<and> \<not> cv_cacheHit result
      \<and> totalCharacterCount result
          = sum_list (map (\<lambda>s. length (seg_text s)) (conversationSegments rq))
      \<and> cv_estimatedCostUSD result
          = sum_list (map (\<lambda>s. calculateCostUSD (length (seg_text s))
                                  (resolveVoice (seg_voiceName s))) (conversationSegments rq)))"
proof
  assume a: "existingConversation e (conversationSegments rq) (cacheListing w) = None
     \<and> \<not> readOnly (files w)"
  then obtain w' where "generateConversationTTS e now today random rq w =
     (Inr \<lparr>cv_audioUrl = audioUrlOf e (conversationFilename e now (conversationSegments rq)),
           totalCharacterCount = sum_list (map (\<lambda>s. length (seg_text s)) (conversationSegments rq)),
           cv_estimatedCostUSD =
             sum_list (map (\<lambda>s. calculateCostUSD (length (seg_text s))
                                    (resolveVoice (seg_voiceName s))) (conversationSegments rq)),
           cv_cacheHit = False,
           cv_duration =
             real_of_int (sum_list (map (\<lambda>s. Math_ceil (real (length (seg_text s)) / 10))
                                       (conversationSegments rq)))
             + real_of_int (int (length (conversationSegments rq)) - 1) * pauseOf rq,
           cv_conversationSegments = conversationSegments rq\<rparr>, w')"
    using conversation_miss_result [of e rq w now today random] by blast
  then show "\<exists>result w'. generateConversationTTS e now today random rq w = (Inr result, w')
      \<and> \<not> cv_cacheHit result
      \<and> totalCharacterCount result
          = sum_list (map (\<lambda>s. length (seg_text s)) (conversationSegments rq))
      \<and> cv_estimatedCostUSD result
          = sum_list (map (\<lambda>s. calculateCostUSD (length (seg_text s))
                                  (resolveVoice (seg_voiceName s))) (conversationSegments rq))"
    by simp
qed

lemma empty_cache_conversation_miss:
  "existingConversation e segments (cacheListing (world_of [])) = None"
  by (simp add: existingConversation_def cacheListing_def world_of_def)

lemma tier_examples:
  "isNeural2Voice ''en-US-Neural2-D''" "\<not> isNeural2Voice ''en-US-Standard-C''"
  "isNeural2Voice ''en-US-Neural2-F''" "\<not> isNeural2Voice ''conversation''"
  by (simp_all add: isNeural2Voice_def)

lemma cost_examples:
  "calculateCostUSD 2 ''en-US-Standard-C'' = 0"
  "calculateCostUSD 5 ''en-US-Neural2-D'' = 0"
  "calculateCostUSD 1000 ''en-US-Neural2-F'' = 1 / 50"
  "calculateCostUSD 1000 ''conversation'' = 0"
  by (simp_all add: calculateCostUSD_def tier_examples TTS_CONFIG_def Math_round_def)

lemma hi_hello_segments:
  "map (\<lambda>s. length (seg_text s)) (conversationSegments hi_hello) = [2, 5]"
  "map (\<lambda>s. resolveVoice (seg_voiceName s)) (conversationSegments hi_hello)
     = [''en-US-Standard-C'', ''en-US-Neural2-D'']"
  by (simp_all add: hi_hello_def js_def resolveVoice_def VOICE_MAP_def)

lemma hi_hello_sums:
  "sum_list (map (\<lambda>s. length (seg_text s)) (conversationSegments hi_hello)) = 7"
  "sum_list (map (\<lambda>s. calculateCostUSD (length (seg_text s)) (resolveVoice (seg_voiceName s)))
     (conversationSegments hi_hello))
     = calculateCostUSD 2 ''en-US-Standard-C'' + calculateCostUSD 5 ''en-US-Neural2-D''"
proof -
  show "sum_list (map (\<lambda>s. length (seg_text s)) (conversationSegments hi_hello)) = 7"
    by (simp add: hi_hello_segments(1))
  have l: "length (js ''Hi'') = 2" "length (js ''Hello'') = 5"
    by (simp_all add: js_def)
  show "sum_list (map (\<lambda>s. calculateCostUSD (length (seg_text s)) (resolveVoice (seg_voiceName s)))
     (conversationSegments hi_hello))
     = calculateCostUSD 2 ''en-US-Standard-C'' + calculateCostUSD 5 ''en-US-Neural2-D''"
    by (simp add: hi_hello_def l resolveVoice_def VOICE_MAP_def)
qed

theorem conversation_cost_is_sum_witness:
  "\<forall>stringify sha256 sine client.
     \<exists>result w'. generateConversationTTS (env_of stringify sha256 sine client) 1700000000000
         ''2023-11-14'' (1 / 2) hi_hello (world_of []) = (Inr result, w')
       \<and> \<not> cv_cacheHit result
       \<and> totalCharacterCount result = 7
       \<and> cv_estimatedCostUSD result
           = calculateCostUSD 2 ''en-US-Standard-C'' + calculateCostUSD 5 ''en-US-Neural2-D''"
proof (intro allI)
  fix stringify sha256 sine client
  from conversation_cost_is_sum [of "env_of stringify sha256 sine client" hi_hello "world_of []"
      1700000000000 "''2023-11-14''" "1 / 2"] empty_cache_conversation_miss empty_cache_miss(2)
  show "\<exists>result w'. generateConversationTTS (env_of stringify sha256 sine client) 1700000000000
         ''2023-11-14'' (1 / 2) hi_hello (world_of []) = (Inr result, w')
       \<and> \<not> cv_cacheHit result
       \<and> totalCharacterCount result = 7
       \<and> cv_estimatedCostUSD result
           = calculateCostUSD 2 ''en-US-Standard-C'' + calculateCostUSD 5 ''en-US-Neural2-D''"
    by (simp add: hi_hello_sums)
qed

text \<open>
  The spec's example \<^verbatim>\<open>[{'Hi', 'female'}, {'Hello', 'neural-male'}]\<close>: seven characters, and
  a total cost of 0, not of 0.000088, since each segment's cost rounds to 0 cents.
\<close>

theorem hi_hello_costs_nothing:
  "\<forall>stringify sha256 sine client.
     \<exists>result w'. generateConversationTTS (env_of stringify sha256 sine client) 1700000000000
         ''2023-11-14'' (1 / 2) hi_hello (world_of []) = (Inr result, w')
       \<and> totalCharacterCount result = 7
       \<and> cv_estimatedCostUSD result = 0
       \<and> cv_estimatedCostUSD result
           \<noteq> 2 * standardCostPerCharacterUSD TTS_CONFIG + 5 * neural2CostPerCharacterUSD TTS_CONFIG"
proof (intro allI)
  fix stringify sha256 sine client
  from conversation_miss_result [of "env_of stringify sha256 sine client" hi_hello "world_of []"
      1700000000000 "''2023-11-14''" "1 / 2"] empty_cache_conversation_miss empty_cache_miss(2)
  show "\<exists>result w'. generateConversationTTS (env_of stringify sha256 sine client) 1700000000000
         ''2023-11-14'' (1 / 2) hi_hello (world_of []) = (Inr result, w')
       \<and> totalCharacterCount result = 7
       \<and> cv_estimatedCostUSD result = 0
       \<and> cv_estimatedCostUSD result
           \<noteq> 2 * standardCostPerCharacterUSD TTS_CONFIG + 5 * neural2CostPerCharacterUSD TTS_CONFIG"
    by (auto simp: hi_hello_sums cost_examples TTS_CONFIG_def)
qed















lemma ceil_sum_le:
  "Math_ceil (real (sum_list (map f xs)) / 10)
     \<le> sum_list (map (\<lambda>x. Math_ceil (real (f x) / 10)) xs)"
proof (induction xs)
  case Nil
  then show ?case by (simp add: Math_ceil_def)
next
  case (Cons x xs)
  have "\<lceil>real (f x + sum_list (map f xs)) / 10\<rceil>
      \<le> \<lceil>real (f x) / 10\<rceil> + \<lceil>real (sum_list (map f xs)) / 10\<rceil>"
    using ceiling_add_le [of "real (f x) / 10" "real (sum_list (map f xs)) / 10"]
    by (simp add: add_divide_distrib)
  with Cons show ?case by (simp add: Math_ceil_def)
qed

text \<open>
  C10 (duration and cache state). On a cache hit the duration of a conversation is
  \<open>\<lceil>total characters / 10\<rceil>\<close>; on a miss it is the sum of the segments'
  \<open>\<lceil>length / 10\<rceil>\<close> plus (number of segments - 1) times the pause. With two segments or
  more and a positive pause (the request's range is 0.1 to 3 seconds) the first is smaller
  than the second.
\<close>

theorem conversation_duration_depends_on_cache:
  "(\<forall>f. existingConversation e (conversationSegments rq) (cacheListing w) = Some f \<longrightarrow>
      (\<exists>result w'. generateConversationTTS e now today random rq w = (Inr result, w')
         \<and> cv_cacheHit result
         \<and> cv_duration result
             = real_of_int (Math_ceil (real (sum_list (map (\<lambda>s. length (seg_text s))
                                                        (conversationSegments rq))) / 10))))
   \<and> (existingConversation e (conversationSegments rq) (cacheListing w) = None
        \<and> \<not> readOnly (files w) \<longrightarrow>
      (\<exists>result w'. generateConversationTTS e now today random rq w = (Inr result, w')
         \<and> \<not> cv_cacheHit result
         \<and> cv_duration result
             = real_of_int (sum_list (map (\<lambda>s. Math_ceil (real (length (seg_text s)) / 10))
                                       (conversationSegments rq)))
               + real_of_int (int (length (conversationSegments rq)) - 1) * pauseOf rq))
   \<and> (2 \<le> length (conversationSegments rq) \<and> 0 < pauseOf rq \<longrightarrow>
        real_of_int (Math_ceil (real (sum_list (map (\<lambda>s. length (seg_text s))
                                                 (conversationSegments rq))) / 10))
        < real_of_int (sum_list (map (\<lambda>s. Math_ceil (real (length (seg_text s)) / 10))
                                  (conversationSegments rq)))
          + real_of_int (int (length (conversationSegments rq)) - 1) * pauseOf rq)"
proof (intro conjI impI allI)
  fix f
  assume "existingConversation e (conversationSegments rq) (cacheListing w) = Some f"
  from generateConversationTTS_of_try [OF generateConversationTTS_try_hit [OF this]]
  show "\<exists>result w'. generateConversationTTS e now today random rq w = (Inr result, w')
         \<and> cv_cacheHit result
         \<and> cv_duration result
             = real_of_int (Math_ceil (real (sum_list (map (\<lambda>s. length (seg_text s))
                                                        (conversationSegments rq))) / 10))"
    by fastforce
next
  assume "existingConversation e (conversationSegments rq) (cacheListing w) = None
        \<and> \<not> readOnly (files w)"
  then show "\<exists>result w'. generateConversationTTS e now today random rq w = (Inr result, w')
         \<and> \<not> cv_cacheHit result
         \<and> cv_duration result
             = real_of_int (sum_list (map (\<lambda>s. Math_ceil (real (length (seg_text s)) / 10))
                                       (conversationSegments rq)))
               + real_of_int (int (length (conversationSegments rq)) - 1) * pauseOf rq"
    using conversation_miss_result [of e rq w now today random] by fastforce
next
  assume a: "2 \<le> length (conversationSegments rq) \<and> 0 < pauseOf rq"
  then have "0 < real_of_int (int (length (conversationSegments rq)) - 1) * pauseOf rq"
    by simp
  moreover have "real_of_int (Math_ceil (real (sum_list (map (\<lambda>s. length (seg_text s))
                                                 (conversationSegments rq))) / 10))
      \<le> real_of_int (sum_list (map (\<lambda>s. Math_ceil (real (length (seg_text s)) / 10))
                                  (conversationSegments rq)))"
    using ceil_sum_le [of "\<lambda>s. length (seg_text s)" "conversationSegments rq"] by simp
  ultimately show "real_of_int (Math_ceil (real (sum_list (map (\<lambda>s. length (seg_text s))
                                                 (conversationSegments rq))) / 10))
        < real_of_int (sum_list (map (\<lambda>s. Math_ceil (real (length (seg_text s)) / 10))
                                  (conversationSegments rq)))
          + real_of_int (int (length (conversationSegments rq)) - 1) * pauseOf rq"
    by linarith
qed


lemma hi_hello_durations:
  "Math_ceil (real (sum_list (map (\<lambda>s. length (seg_text s)) (conversationSegments hi_hello))) / 10) = 1"
  "sum_list (map (\<lambda>s. Math_ceil (real (length (seg_text s)) / 10)) (conversationSegments hi_hello)) = 2"
  "length (conversationSegments hi_hello) = 2" "pauseOf hi_hello = 1 / 2"
proof -
  show "Math_ceil (real (sum_list (map (\<lambda>s. length (seg_text s))
      (conversationSegments hi_hello))) / 10) = 1"
    by (simp add: hi_hello_sums(1) Math_ceil_def)
  have l: "length (js ''Hi'') = 2" "length (js ''Hello'') = 5"
    by (simp_all add: js_def)
  have c: "\<lceil>(1::real) / 5\<rceil> = 1" "\<lceil>(1::real) / 2\<rceil> = 1"
    by (rule ceiling_unique; simp)+
  show "sum_list (map (\<lambda>s. Math_ceil (real (length (seg_text s)) / 10))
      (conversationSegments hi_hello)) = 2"
    by (simp add: hi_hello_def l Math_ceil_def c)
  show "length (conversationSegments hi_hello) = 2" "pauseOf hi_hello = 1 / 2"
    by (simp_all add: hi_hello_def pauseOf_def)
qed

theorem conversation_duration_depends_on_cache_witness:
  "\<forall>stringify sha256 sine client.
     (\<exists>result w'. generateConversationTTS (env_of stringify sha256 sine client) 1700000000000
          ''2023-11-14'' (1 / 2) hi_hello (world_of []) = (Inr result, w')
        \<and> \<not> cv_cacheHit result \<and> cv_duration result = 5 / 2)
     \<and> (\<exists>result w'. generateConversationTTS (env_of stringify sha256 sine client) 1700000000000
          ''2023-11-14'' (1 / 2) hi_hello
          (world_of [\<lparr>d_name = conversationFilename (env_of stringify sha256 sine client)
                                 1600000000000 (conversationSegments hi_hello),
                       d_mtime = 1600000000000, d_kind = RegularFile, d_data = []\<rparr>])
          = (Inr result, w')
        \<and> cv_cacheHit result \<and> cv_duration result = 1)"
proof (intro allI conjI)
  fix stringify sha256 sine client
  let ?e = "env_of stringify sha256 sine client"
  have miss: "existingConversation ?e (conversationSegments hi_hello) (cacheListing (world_of [])) = None
      \<and> \<not> readOnly (files (world_of []))"
    by (simp add: existingConversation_def cacheListing_def world_of_def)
  from conversation_duration_depends_on_cache [of ?e hi_hello "world_of []" 1700000000000
      "''2023-11-14''" "1 / 2"] miss
  obtain result w' where
    "generateConversationTTS ?e 1700000000000 ''2023-11-14'' (1 / 2) hi_hello (world_of [])
       = (Inr result, w')" "\<not> cv_cacheHit result"
    "cv_duration result
       = real_of_int (sum_list (map (\<lambda>s. Math_ceil (real (length (seg_text s)) / 10))
                                 (conversationSegments hi_hello)))
         + real_of_int (int (length (conversationSegments hi_hello)) - 1) * pauseOf hi_hello"
    by blast
  then show "\<exists>result w'. generateConversationTTS ?e 1700000000000
          ''2023-11-14'' (1 / 2) hi_hello (world_of []) = (Inr result, w')
        \<and> \<not> cv_cacheHit result \<and> cv_duration result = 5 / 2"
    by (intro exI [of _ result] exI [of _ w']) (simp add: hi_hello_durations)
  let ?f = "conversationFilename ?e 1600000000000 (conversationSegments hi_hello)"
  let ?w = "world_of [\<lparr>d_name = ?f, d_mtime = 1600000000000, d_kind = RegularFile, d_data = []\<rparr>]"
  have "existingConversation ?e (conversationSegments hi_hello) (cacheListing ?w) = Some ?f"
    using conversationFilename_includes [of ?e 1600000000000 "conversationSegments hi_hello"]
    by (simp add: existingConversation_def cacheListing_def world_of_def)
  with conversation_duration_depends_on_cache [of ?e hi_hello ?w 1700000000000
      "''2023-11-14''" "1 / 2"]
  obtain result w' where
    "generateConversationTTS ?e 1700000000000 ''2023-11-14'' (1 / 2) hi_hello ?w
       = (Inr result, w')" "cv_cacheHit result"
    "cv_duration result
       = real_of_int (Math_ceil (real (sum_list (map (\<lambda>s. length (seg_text s))
                                                  (conversationSegments hi_hello))) / 10))"
    by blast
  then show "\<exists>result w'. generateConversationTTS ?e 1700000000000
          ''2023-11-14'' (1 / 2) hi_hello ?w = (Inr result, w')
        \<and> cv_cacheHit result \<and> cv_duration result = 1"
    by (intro exI [of _ result] exI [of _ w']) (simp add: hi_hello_durations)
qed

subsection \<open>Chunking of oversized text\<close>

lemma split_terminal_no_terminal:
  "\<forall>c\<in>set s. \<not> isTerminal c \<Longrightarrow> split_terminal s = [s]"
  by (induction s) simp_all

lemma byteLength_ascii:
  "\<forall>c\<in>set s. c < 0x80 \<Longrightarrow> byteLength s = length s"
proof (induction s rule: byteLength.induct)
  case 1
  then show ?case by simp
next
  case (2 c)
  then show ?case by (simp add: unitBytes_def)
next
  case (3 c d cs)
  have "\<not> isHighSurrogate c"
  proof
    assume "isHighSurrogate c"
    then have "0xD800 \<le> c" by (simp add: isHighSurrogate_def)
    moreover have "c < 0x80" using 3(3) by simp
    ultimately have "(0xD800 :: 16 word) < 0x80" by (rule le_less_trans)
    then show False by simp
  qed
  with 3 show ?case by (simp add: unitBytes_def)
qed

lemma dropWhile_hd: "xs \<noteq> [] \<Longrightarrow> \<not> P (hd xs) \<Longrightarrow> dropWhile P xs = xs"
  by (cases xs) simp_all

lemma trim_id:
  assumes "s \<noteq> []" and "\<not> isWhiteSpace (hd s)" and "\<not> isWhiteSpace (last s)"
  shows "trim s = s"
proof -
  have 1: "dropWhile isWhiteSpace s = s"
    using assms(1,2) by (rule dropWhile_hd)
  have "rev s \<noteq> []" "\<not> isWhiteSpace (hd (rev s))"
    using assms(1,3) by (simp_all add: hd_rev)
  then have "dropWhile isWhiteSpace (rev s) = rev s"
    by (rule dropWhile_hd)
  with 1 show ?thesis by (simp add: trim_def)
qed

lemma chunkText_single_sentence:
  assumes "\<forall>c\<in>set s. \<not> isTerminal c" and "s \<noteq> []" and "\<not> isWhiteSpace (hd s)"
    and "\<not> isWhiteSpace (last s)"
  shows "chunkText s = [s @ js ''.'']"
proof -
  have t: "trim s = s"
    using assms by (simp add: trim_id)
  have dot: "js ''.'' = [0x2E]"
    by (simp add: js_def)
  have "\<not> isWhiteSpace 0x2E"
    by (simp add: isWhiteSpace_def)
  then have t': "trim (s @ js ''.'') = s @ js ''.''"
    using assms(2,3) by (intro trim_id) (simp_all add: dot)
  show ?thesis
    using assms(2)
    by (simp add: chunkText_def split_terminal_no_terminal [OF assms(1)] t t' Let_def)
qed

text \<open>
  C6 (chunking) at a text of 5001 letters without terminal punctuation. The text is longer
  than 5000 bytes, so it is chunked; it is one sentence, and \<^verbatim>\<open>currentChunk\<close> is empty when
  the loop meets it, so the sentence is taken whole: the only chunk has 5002 bytes, more
  than \<^const>\<open>maxChunkSize\<close> and more than the text itself.
\<close>

theorem oversized_sentence_chunk:
  "5000 < byteLength one_long_sentence
   \<and> chunkText one_long_sentence = [one_long_sentence @ js ''.'']
   \<and> byteLength (one_long_sentence @ js ''.'') = 5002
   \<and> maxChunkSize = 4500"
proof (intro conjI)
  have "byteLength one_long_sentence = 5001"
    unfolding one_long_sentence_def by (subst byteLength_ascii) simp_all
  then show "5000 < byteLength one_long_sentence"
    by simp
  have dot: "js ''.'' = [0x2E]"
    by (simp add: js_def)
  show "byteLength (one_long_sentence @ js ''.'') = 5002"
    unfolding dot one_long_sentence_def by (subst byteLength_ascii) auto
  show "maxChunkSize = 4500"
    by (simp add: maxChunkSize_def)
  have "\<not> isWhiteSpace 0x61" "\<not> isTerminal 0x61"
    by (simp_all add: isWhiteSpace_def isTerminal_def)
  then show "chunkText one_long_sentence = [one_long_sentence @ js ''.'']"
    unfolding one_long_sentence_def by (intro chunkText_single_sentence) simp_all
qed

lemma whiteSpace_not_surrogate:
  "isWhiteSpace c \<Longrightarrow> \<not> isHighSurrogate c \<and> \<not> isLowSurrogate c"
  by (auto simp: isWhiteSpace_def isHighSurrogate_def isLowSurrogate_def word_le_nat_alt)

lemma byteLength_Cons_plain:
  "\<not> isHighSurrogate c \<Longrightarrow> byteLength (c # s) = unitBytes c + byteLength s"
  by (cases s) simp_all

lemma lowSurrogate_plain:
  assumes "isLowSurrogate d"
  shows "\<not> isHighSurrogate d" and "unitBytes d = 3"
proof -
  have l: "0xDC00 \<le> d" using assms by (simp add: isLowSurrogate_def)
  show "\<not> isHighSurrogate d"
  proof
    assume "isHighSurrogate d"
    then have "d \<le> 0xDBFF" by (simp add: isHighSurrogate_def)
    with l have "(0xDC00 :: 16 word) \<le> 0xDBFF" by (rule order_trans)
    then show False by simp
  qed
  have "\<not> d < 0x800"
  proof
    assume "d < 0x800"
    with l have "(0xDC00 :: 16 word) < 0x800" by (rule le_less_trans)
    then show False by simp
  qed
  moreover have "\<not> d < 0x80"
  proof
    assume "d < 0x80"
    with l have "(0xDC00 :: 16 word) < 0x80" by (rule le_less_trans)
    then show False by simp
  qed
  ultimately show "unitBytes d = 3" by (simp add: unitBytes_def)
qed

lemma byteLength_Cons_le: "byteLength s \<le> byteLength (c # s)"
proof (cases s)
  case Nil
  then show ?thesis by simp
next
  case (Cons d cs)
  show ?thesis
  proof (cases "isHighSurrogate c \<and> isLowSurrogate d")
    case True
    then have "byteLength (d # cs) = 3 + byteLength cs"
      using lowSurrogate_plain [of d] by (simp add: byteLength_Cons_plain)
    with True show ?thesis unfolding Cons by simp
  next
    case False
    then show ?thesis unfolding Cons by auto
  qed
qed

lemma byteLength_dropWhile_le: "byteLength (dropWhile P s) \<le> byteLength s"
proof (induction s)
  case Nil
  then show ?case by simp
next
  case (Cons c s)
  then show ?case
    using byteLength_Cons_le [of s c] by simp
qed

lemma byteLength_snoc_whiteSpace:
  "isWhiteSpace c \<Longrightarrow> byteLength (s @ [c]) = byteLength s + unitBytes c"
proof (induction s rule: byteLength.induct)
  case 1
  then show ?case by simp
next
  case (2 x)
  then show ?case by (simp add: whiteSpace_not_surrogate)
next
  case (3 x d cs)
  then show ?case by simp
qed

lemma byteLength_trimEnd_le:
  "byteLength (rev (dropWhile isWhiteSpace (rev s))) \<le> byteLength s"
proof (induction s rule: rev_induct)
  case Nil
  then show ?case by simp
next
  case (snoc x xs)
  show ?case
  proof (cases "isWhiteSpace x")
    case True
    with snoc show ?thesis by (simp add: byteLength_snoc_whiteSpace)
  next
    case False
    then show ?thesis by simp
  qed
qed

lemma byteLength_trim_le: "byteLength (trim s) \<le> byteLength s"
  unfolding trim_def
  using byteLength_trimEnd_le [of "dropWhile isWhiteSpace s"]
    byteLength_dropWhile_le [of isWhiteSpace s]
  by linarith

lemma chunkLoop_within:
  assumes "chunkLoop ss chunks cur = (chunks', cur')"
    and "\<forall>s\<in>set ss. byteLength (s @ js ''.'') \<le> maxChunkSize"
    and "\<forall>c\<in>set chunks. byteLength c \<le> maxChunkSize"
    and "byteLength cur \<le> maxChunkSize"
  shows "(\<forall>c\<in>set chunks'. byteLength c \<le> maxChunkSize) \<and> byteLength cur' \<le> maxChunkSize"
  using assms
proof (induction ss arbitrary: chunks cur)
  case Nil
  then show ?case by simp
next
  case (Cons s ss)
  have s: "byteLength (s @ js ''.'') \<le> maxChunkSize"
    using Cons.prems(2) by simp
  have rest: "\<forall>s\<in>set ss. byteLength (s @ js ''.'') \<le> maxChunkSize"
    using Cons.prems(2) by simp
  show ?case
  proof (cases "byteLength (cur @ s @ js ''.'') > maxChunkSize \<and> cur \<noteq> []")
    case True
    have l: "chunkLoop ss (chunks @ [trim cur]) (s @ js ''.'') = (chunks', cur')"
      using Cons.prems(1) unfolding chunkLoop.simps Let_def if_P [OF True] .
    have "\<forall>c\<in>set (chunks @ [trim cur]). byteLength c \<le> maxChunkSize"
      using Cons.prems(3,4) byteLength_trim_le [of cur] by auto
    from Cons.IH [OF l rest this s] show ?thesis .
  next
    case False
    have l: "chunkLoop ss chunks (cur @ s @ js ''.'') = (chunks', cur')"
      using Cons.prems(1) unfolding chunkLoop.simps Let_def if_not_P [OF False] .
    have "byteLength (cur @ s @ js ''.'') \<le> maxChunkSize"
      using False s by (cases "cur = []") auto
    from Cons.IH [OF l rest Cons.prems(3) this] show ?thesis .
  qed
qed

lemma synthesizeAll_Inr:
  "synthesizeAll client rs = Inr audios \<Longrightarrow> list_all2 (\<lambda>r a. client r = Inr a) rs audios"
  by (induction rs arbitrary: audios) (auto split: sum.splits)


text \<open>
  When every sentence, with the full stop the loop appends, has at most
  \<^const>\<open>maxChunkSize\<close> bytes, so has every chunk.
\<close>

theorem chunks_within_threshold:
  "(\<forall>s\<in>set (filter (\<lambda>s. trim s \<noteq> []) (split_terminal t)).
      byteLength (s @ js ''.'') \<le> maxChunkSize) \<longrightarrow>
   (\<forall>c\<in>set (chunkText t). byteLength c \<le> maxChunkSize)"
proof
  let ?ss = "filter (\<lambda>s. trim s \<noteq> []) (split_terminal t)"
  assume a: "\<forall>s\<in>set ?ss. byteLength (s @ js ''.'') \<le> maxChunkSize"
  obtain chunks cur where l: "chunkLoop ?ss [] [] = (chunks, cur)"
    by (cases "chunkLoop ?ss [] []")
  from chunkLoop_within [OF l a] have
    c: "\<forall>c\<in>set chunks. byteLength c \<le> maxChunkSize" and "byteLength cur \<le> maxChunkSize"
    by simp_all
  then have "byteLength (trim cur) \<le> maxChunkSize"
    using byteLength_trim_le [of cur] by linarith
  with c show "\<forall>c\<in>set (chunkText t). byteLength c \<le> maxChunkSize"
    by (simp add: chunkText_def l Let_def)
qed

lemma split_terminal_append:
  assumes "\<forall>c\<in>set xs. \<not> isTerminal c" and "isTerminal d" and "dropWhile isTerminal ys = ys"
  shows "split_terminal (xs @ d # ys) = xs # split_terminal ys"
  using assms(1)
proof (induction xs)
  case Nil
  then show ?case using assms(2,3) by simp
next
  case (Cons x xs)
  then show ?case by simp
qed

lemma two_sentences_chunks:
  "chunkText two_sentences = [replicate 3000 0x61 @ js ''.'', replicate 3000 0x62 @ js ''.'']"
proof -
  let ?a = "replicate 3000 (0x61 :: 16 word)" and ?b = "replicate 3000 (0x62 :: 16 word)"
  have dot: "js ''.'' = [0x2E]"
    by (simp add: js_def)
  have p: "\<not> isWhiteSpace 0x61" "\<not> isTerminal 0x61" "\<not> isWhiteSpace 0x62" "\<not> isTerminal 0x62"
    "isTerminal 0x2E" "\<not> isWhiteSpace 0x2E"
    by (simp_all add: isWhiteSpace_def isTerminal_def)
  have "dropWhile isTerminal ?b = ?b"
    by (rule dropWhile_hd) (simp_all add: p)
  then have "split_terminal (?a @ 0x2E # ?b) = ?a # split_terminal ?b"
    by (intro split_terminal_append) (simp_all add: p)
  then have sp: "split_terminal two_sentences = [?a, ?b]"
    by (simp add: two_sentences_def split_terminal_no_terminal p)
  have t: "trim ?a = ?a" "trim ?b = ?b" "trim (?a @ js ''.'') = ?a @ js ''.''"
    "trim (?b @ js ''.'') = ?b @ js ''.''"
    unfolding dot by (rule trim_id; simp add: p)+
  have n: "?a \<noteq> []" "?b \<noteq> []"
    by simp_all
  have "byteLength (?a @ [0x2E]) = 3001"
    by (subst byteLength_ascii) auto
  moreover have "byteLength (?a @ [0x2E] @ ?b @ [0x2E]) = 6002"
    by (subst byteLength_ascii) auto
  ultimately have b: "\<not> maxChunkSize < byteLength (?a @ js ''.'')"
    "maxChunkSize < byteLength (?a @ js ''.'' @ ?b @ js ''.'')"
    unfolding dot by (simp_all add: maxChunkSize_def)
  have l: "chunkLoop [?a, ?b] [] [] = ([?a @ js ''.''], ?b @ js ''.'')"
    by (simp add: Let_def t b n)
  show ?thesis
    by (simp add: chunkText_def sp t n l Let_def del: chunkLoop.simps)
qed

lemma two_sentences_bytes:
  "byteLength two_sentences = 6001"
  "byteLength (replicate 3000 0x61 @ js ''.'') = 3001"
  "byteLength (replicate 3000 0x62 @ js ''.'') = 3001"
proof -
  have dot: "js ''.'' = [0x2E]"
    by (simp add: js_def)
  show "byteLength two_sentences = 6001"
    unfolding two_sentences_def by (subst byteLength_ascii) auto
  show "byteLength (replicate 3000 0x61 @ js ''.'') = 3001"
    unfolding dot by (subst byteLength_ascii) auto
  show "byteLength (replicate 3000 0x62 @ js ''.'') = 3001"
    unfolding dot by (subst byteLength_ascii) auto
qed

theorem chunks_within_threshold_witness:
  "list_all (\<lambda>s. byteLength (s @ js ''.'') \<le> maxChunkSize)
     (filter (\<lambda>s. trim s \<noteq> []) (split_terminal two_sentences))
   \<and> chunkText two_sentences = [replicate 3000 0x61 @ js ''.'', replicate 3000 0x62 @ js ''.'']
   \<and> list_all (\<lambda>c. byteLength c \<le> maxChunkSize) (chunkText two_sentences)"
proof -
  let ?a = "replicate 3000 (0x61 :: 16 word)" and ?b = "replicate 3000 (0x62 :: 16 word)"
  have p: "\<not> isWhiteSpace 0x61" "\<not> isTerminal 0x61" "\<not> isWhiteSpace 0x62" "\<not> isTerminal 0x62"
    "isTerminal 0x2E"
    by (simp_all add: isWhiteSpace_def isTerminal_def)
  have "dropWhile isTerminal ?b = ?b"
    by (rule dropWhile_hd) (simp_all add: p)
  then have "split_terminal (?a @ 0x2E # ?b) = ?a # split_terminal ?b"
    by (intro split_terminal_append) (simp_all add: p)
  then have sp: "split_terminal two_sentences = [?a, ?b]"
    by (simp add: two_sentences_def split_terminal_no_terminal p)
  have t: "trim ?a = ?a" "trim ?b = ?b"
    by (rule trim_id; simp add: p)+
  have f: "filter (\<lambda>s. trim s \<noteq> []) (split_terminal two_sentences) = [?a, ?b]"
    by (simp add: sp t)
  have h: "\<forall>s\<in>set (filter (\<lambda>s. trim s \<noteq> []) (split_terminal two_sentences)).
      byteLength (s @ js ''.'') \<le> maxChunkSize"
    unfolding f by (simp add: two_sentences_bytes maxChunkSize_def)
  with chunks_within_threshold [of two_sentences]
  have "\<forall>c\<in>set (chunkText two_sentences). byteLength c \<le> maxChunkSize"
    by blast
  with h two_sentences_chunks show ?thesis
    by (simp add: list_all_iff)
qed

text \<open>
  When the calls of the provider for a text of more than 5000 bytes all succeed, the audio
  is the concatenation of the chunks' audio in the order of the chunks, one call per chunk.
\<close>

theorem chunked_audio_in_order:
  "5000 < byteLength (rq_text rq) \<and> callProvider client rq = Inr resp \<longrightarrow>
   (\<exists>audios.
      list_all2 (\<lambda>c a. client ((ttsRequestOf rq)\<lparr>input_text := c\<rparr>) = Inr a)
        (chunkText (rq_text rq)) audios
      \<and> resp_audioContent resp = concat audios
      \<and> resp_chunkCount resp = Some (length (chunkText (rq_text rq))))"
proof
  assume a: "5000 < byteLength (rq_text rq) \<and> callProvider client rq = Inr resp"
  let ?rs = "map (\<lambda>c. (ttsRequestOf rq)\<lparr>input_text := c\<rparr>) (chunkText (rq_text rq))"
  from a obtain audios where s: "synthesizeAll client ?rs = Inr audios"
    and r: "resp_audioContent resp = concat audios"
      "resp_chunkCount resp = Some (length (chunkText (rq_text rq)))"
    by (auto simp: callProvider_def Let_def split: sum.splits)
  from synthesizeAll_Inr [OF s]
  have "list_all2 (\<lambda>c a. client ((ttsRequestOf rq)\<lparr>input_text := c\<rparr>) = Inr a)
        (chunkText (rq_text rq)) audios"
    by (simp add: list_all2_map1)
  with r show "\<exists>audios.
      list_all2 (\<lambda>c a. client ((ttsRequestOf rq)\<lparr>input_text := c\<rparr>) = Inr a)
        (chunkText (rq_text rq)) audios
      \<and> resp_audioContent resp = concat audios
      \<and> resp_chunkCount resp = Some (length (chunkText (rq_text rq)))"
    by blast
qed


theorem chunked_audio_in_order_witness:
  "5000 < byteLength (rq_text (hello_world\<lparr>rq_text := two_sentences\<rparr>))
   \<and> (\<exists>resp. callProvider initial_client (hello_world\<lparr>rq_text := two_sentences\<rparr>) = Inr resp
        \<and> resp_audioContent resp = [0x61, 0x62]
        \<and> resp_chunkCount resp = Some 2)"
proof -
  let ?rq = "hello_world\<lparr>rq_text := two_sentences\<rparr>"
  have big: "5000 < byteLength (rq_text ?rq)"
    by (simp add: two_sentences_bytes)
  have i: "initial_client (r\<lparr>input_text := replicate 3000 0x61 @ js ''.''\<rparr>) = Inr [0x61]"
    "initial_client (r\<lparr>input_text := replicate 3000 0x62 @ js ''.''\<rparr>) = Inr [0x62]" for r
    by (simp_all add: initial_client_def)
  obtain resp where c: "callProvider initial_client ?rq = Inr resp"
    using big by (simp add: callProvider_def two_sentences_chunks i Let_def)
  with chunked_audio_in_order [of ?rq initial_client resp] big
  obtain audios where a:
    "list_all2 (\<lambda>c a. initial_client ((ttsRequestOf ?rq)\<lparr>input_text := c\<rparr>) = Inr a)
       (chunkText (rq_text ?rq)) audios"
    "resp_audioContent resp = concat audios"
    "resp_chunkCount resp = Some (length (chunkText (rq_text ?rq)))"
    by blast
  from a(1) have "audios = [[0x61], [0x62]]"
    by (simp add: two_sentences_chunks i list_all2_Cons1)
  with a(2,3) have "resp_audioContent resp = [0x61, 0x62]" "resp_chunkCount resp = Some 2"
    by (simp_all add: two_sentences_chunks)
  with big c show ?thesis by blast
qed

end
